theory Spec2Isabelle
  imports Complex_Main "HOL-Library.Product_Lexorder"
begin

section \<open>Filename Date Resolver\<close>

text \<open>
  Strings are lists of characters. The source works on Python \<open>str\<close>; a HOL \<open>char\<close> is a
  code point below 256, where the only decimal digits are \<open>0\<close>..\<open>9\<close> and the regular
  expression class \<open>[A-Za-z]\<close> is the 52 ASCII letters.
\<close>

definition is_upper :: "char \<Rightarrow> bool" where
  "is_upper c = (65 \<le> (of_char c :: nat) \<and> (of_char c :: nat) \<le> 90)"

definition is_lower :: "char \<Rightarrow> bool" where
  "is_lower c = (97 \<le> (of_char c :: nat) \<and> (of_char c :: nat) \<le> 122)"

definition is_letter :: "char \<Rightarrow> bool" where
  "is_letter c = (is_upper c \<or> is_lower c)"

definition is_digit :: "char \<Rightarrow> bool" where
  "is_digit c = (48 \<le> (of_char c :: nat) \<and> (of_char c :: nat) \<le> 57)"

text \<open>\<open>str.upper\<close> and \<open>str.lower\<close> on one character; the source applies them to
  characters matched by \<open>[A-Za-z]\<close> only.\<close>

definition to_upper :: "char \<Rightarrow> char" where
  "to_upper c = (if is_lower c then char_of ((of_char c :: nat) - 32) else c)"

definition to_lower :: "char \<Rightarrow> char" where
  "to_lower c = (if is_upper c then char_of ((of_char c :: nat) + 32) else c)"

text \<open>\<open>str.capitalize\<close>: first character upper case, the rest lower case.\<close>

fun capitalize :: "string \<Rightarrow> string" where
  "capitalize [] = []"
| "capitalize (c # cs) = to_upper c # map to_lower cs"

text \<open>\<open>calendar.month_abbr\<close> in the C locale: index 0 is the empty string.\<close>

definition month_abbr :: "string list" where
  "month_abbr = ['''', ''Jan'', ''Feb'', ''Mar'', ''Apr'', ''May'', ''Jun'',
                 ''Jul'', ''Aug'', ''Sep'', ''Oct'', ''Nov'', ''Dec'']"

definition digit_char :: "nat \<Rightarrow> char" where
  "digit_char n = char_of (48 + n)"

fun decimal :: "nat \<Rightarrow> string" where
  "decimal n = (if n < 10 then [digit_char n] else decimal (n div 10) @ [digit_char (n mod 10)])"

declare decimal.simps [simp del]

text \<open>The format \<open>{i:02d}\<close>: decimal digits, padded with zeros to two characters.\<close>

definition fmt02d :: "nat \<Rightarrow> string" where
  "fmt02d i = (let s = decimal i in replicate (2 - length s) (CHR ''0'') @ s)"

text \<open>\<open>month_map = {abbr: f"{i:02d}" for i, abbr in enumerate(month_abbr) if abbr}\<close>.
  A later entry of a dict comprehension overrides an earlier one with the same key, hence
  the reversal before \<open>map_of\<close>, which takes the first.\<close>

definition month_map :: "string \<rightharpoonup> string" where
  "month_map = map_of (rev [(abbr, fmt02d i). (i, abbr) \<leftarrow> enumerate 0 month_abbr, abbr \<noteq> []])"

text \<open>\<open>os.path.basename\<close> (POSIX): everything after the last \<open>/\<close>.\<close>

definition basename :: "string \<Rightarrow> string" where
  "basename p = rev (takeWhile (\<lambda>c. c \<noteq> CHR ''/'') (rev p))"

text \<open>\<open>str.rfind\<close> for one character: the index of its last occurrence.\<close>

definition rfind :: "char \<Rightarrow> string \<Rightarrow> nat option" where
  "rfind c p = (if c \<in> set p
     then Some (length p - 1 - length (takeWhile (\<lambda>x. x \<noteq> c) (rev p))) else None)"

text \<open>\<open>os.path.splitext\<close> (POSIX): split at the last dot, unless that dot lies before
  the last separator or only dots precede it in the file name.\<close>

definition splitext :: "string \<Rightarrow> string \<times> string" where
  "splitext p =
     (case rfind (CHR ''.'') p of
        None \<Rightarrow> (p, [])
      | Some dotIndex \<Rightarrow>
          (let filenameIndex = (case rfind (CHR ''/'') p of None \<Rightarrow> 0 | Some sepIndex \<Rightarrow> sepIndex + 1)
           in if filenameIndex \<le> dotIndex \<and>
                 list_ex (\<lambda>c. c \<noteq> CHR ''.'') (take (dotIndex - filenameIndex) (drop filenameIndex p))
              then (take dotIndex p, drop dotIndex p)
              else (p, [])))"

text \<open>The pattern \<open>([A-Za-z]{3})(\d{4})\<close> matched at the head of a string.\<close>

definition match_here :: "string \<Rightarrow> bool" where
  "match_here s = (7 \<le> length s \<and> list_all is_letter (take 3 s) \<and> list_all is_digit (take 4 (drop 3 s)))"

text \<open>\<open>pd.Series([base]).str.extract(r'([A-Za-z]{3})(\d{4})')\<close>: the two groups of the
  leftmost match, or nothing (a row of NaN) when the pattern matches nowhere.\<close>

fun str_extract :: "string \<Rightarrow> (string \<times> string) option" where
  "str_extract [] = None"
| "str_extract (c # cs) =
     (if match_here (c # cs) then Some (take 3 (c # cs), take 4 (drop 3 (c # cs)))
      else str_extract cs)"

definition extract_date_from_filename :: "string \<Rightarrow> string option" where
  "extract_date_from_filename filename =
     (let name = basename filename;
          base = fst (splitext name)
      in case str_extract base of
           None \<Rightarrow> None
         | Some (mon, year) \<Rightarrow>
             (case month_map (capitalize mon) of
                None \<Rightarrow> None
              | Some mm \<Rightarrow> if mm \<noteq> [] then Some (year @ ''-'' @ mm @ ''-01'') else None))"

subsection \<open>Notions used to state the resolver's properties\<close>

text \<open>The stem of a file name: base name without extension.\<close>

definition stem :: "string \<Rightarrow> string" where
  "stem filename = fst (splitext (basename filename))"

definition same_ignoring_case :: "string \<Rightarrow> string \<Rightarrow> bool" where
  "same_ignoring_case a b = (map to_lower a = map to_lower b)"

text \<open>Three letters followed by four digits start at position \<open>i\<close> of \<open>s\<close>.\<close>

definition letters_digits_at :: "string \<Rightarrow> nat \<Rightarrow> bool" where
  "letters_digits_at s i = match_here (drop i s)"

text \<open>The number (1..12) of the month whose abbreviation is \<open>mon\<close> up to letter case.\<close>

definition month_number :: "string \<Rightarrow> nat option" where
  "month_number mon = find (\<lambda>k. same_ignoring_case mon (month_abbr ! k)) [1..<13]"

text \<open>A month abbreviation in any letter case followed by a four-digit year starts at
  position \<open>i\<close> of \<open>s\<close>.\<close>

definition month_year_at :: "string \<Rightarrow> nat \<Rightarrow> bool" where
  "month_year_at s i = (letters_digits_at s i \<and> month_number (take 3 (drop i s)) \<noteq> None)"

text \<open>The date string \<open>year-mm-01\<close> read off the month and year at position \<open>i\<close>.\<close>

definition date_string_at :: "string \<Rightarrow> nat \<Rightarrow> string option" where
  "date_string_at s i =
     (case month_number (take 3 (drop i s)) of
        None \<Rightarrow> None
      | Some k \<Rightarrow> Some (take 4 (drop 3 (drop i s)) @ ''-'' @ fmt02d k @ ''-01''))"

section \<open>Tables, exceptions and results\<close>

text \<open>
  A timestamp is modelled by its calendar date (year, month, day), ordered
  lexicographically; the bounds of the pandas \<open>Timestamp\<close> range are not modelled.
  Numeric cells are real numbers, so sums and means are exact where the source computes
  them in floating point. \<open>NaN\<close> stands for a missing cell.
\<close>

type_synonym date = "nat \<times> nat \<times> nat"

definition date_year :: "date \<Rightarrow> nat" where
  "date_year d = fst d"

definition date_month :: "date \<Rightarrow> nat" where
  "date_month d = fst (snd d)"

definition date_day :: "date \<Rightarrow> nat" where
  "date_day d = snd (snd d)"

datatype cell = Str string | Num real | NaN

text \<open>The exceptions the code can meet; \<open>External\<close> is an exception raised inside a
  collaborator (archive, spreadsheet decoder, date parser, regressor, chart library).\<close>

datatype exn = KeyError string | IndexError | TypeError | ValueError | AttributeError
  | External string

text \<open>The error messages: \<open>Msg\<close> is a literal text, the other two are the texts
  \<open>"Forecast failed: {e}\n{traceback}"\<close> and \<open>"Pipeline error: {e}\n{traceback}"\<close>.\<close>

datatype message = Msg string | Forecast_failed exn | Pipeline_error exn

text \<open>A row of the unified dataset, with the columns the forecast reads. A data frame is
  its column labels and its rows; the cell of a row under a label that the frame does not
  have is never read.\<close>

record row =
  Country :: cell
  Technology :: cell
  Zone :: cell
  KPI :: cell
  Date :: date
  Value :: cell

record dataframe =
  columns :: "string list"
  rows :: "row list"

text \<open>A decoded spreadsheet, and a frame of the list \<open>records\<close>: its column index and its
  rows. A label of the index need not be a string (a numeric header; NaN once line 123
  has run), and two labels may be equal. In a data frame above, \<open>columns\<close> lists the labels
  that are strings, in the order of the index and as often as they occur.\<close>

record sheet =
  sheet_labels :: "cell list"
  sheet_rows :: "row list"

definition value_col :: string where
  "value_col = ''Actual Value MAPS Networks''"

text \<open>The frame \<open>ts\<close> once the lag columns are added: lags and means may be NaN
  (\<open>None\<close>).\<close>

record ts_row =
  ts_ds :: date
  ts_y :: "real option"
  ts_month :: nat
  ts_year :: nat
  ts_y_lag_1 :: "real option"
  ts_y_lag_2 :: "real option"
  ts_y_lag_3 :: "real option"

text \<open>A row of \<open>ts\<close> that survives \<open>dropna\<close>: every column holds a value.\<close>

record feature_row =
  fr_ds :: date
  fr_y :: real
  fr_month :: nat
  fr_year :: nat
  fr_y_lag_1 :: real
  fr_y_lag_2 :: real
  fr_y_lag_3 :: real

text \<open>The feature vector \<open>(month, year, y_lag_1, y_lag_2, y_lag_3)\<close>; a fitted regressor
  maps it to a prediction.\<close>

type_synonym features = "nat \<times> nat \<times> real \<times> real \<times> real"

type_synonym model = "features \<Rightarrow> real"

text \<open>The figure: the two traces, the parts of the title, the axis titles.\<close>

record figure =
  actual :: "(date \<times> real) list"
  forecast :: "(date \<times> real) list"
  title_parts :: "string \<times> string \<times> string \<times> string"
  xaxis_title :: string
  yaxis_title :: string

text \<open>The summary: one line \<open>date: value\<close> per forecast point.\<close>

type_synonym summary = "(date \<times> real) list"

text \<open>The collaborators: unpacking the archive and walking the directory (the pairs of
  directory and file name that \<open>os.walk\<close> yields), decoding a spreadsheet, parsing a date
  string, fitting the regressor, serialising the figure (\<open>to_json\<close> and \<open>json.loads\<close>). Each
  may raise. Releasing the temporary directory at the end of the \<open>with\<close> block is taken
  not to raise, and a fitted regressor predicts a number for every feature vector.\<close>

record env =
  walk_zip :: "string \<Rightarrow> exn + (string \<times> string) list"
  read_excel :: "string \<Rightarrow> exn + sheet"
  to_datetime :: "string \<Rightarrow> exn + date"
  fit :: "(features \<times> real) list \<Rightarrow> exn + model"
  to_json :: "figure \<Rightarrow> exn + string"

section \<open>Series Extractor\<close>

text \<open>The label occurs more than once in the column index: \<open>df[label]\<close> is then a frame of
  several columns, not one column.\<close>

definition duplicated :: "string \<Rightarrow> dataframe \<Rightarrow> bool" where
  "duplicated label df = (1 < count_list (columns df) label)"

text \<open>Lines 30 to 35: the boolean mask. Reading a column that the frame does not have
  raises \<open>KeyError\<close>; a cell equals the requested string only if it is that string. The
  four comparisons are evaluated from left to right and combined with \<open>&\<close> as they come;
  combining raises when one side is a frame of several columns.\<close>

definition filter_rows :: "dataframe \<Rightarrow> string \<Rightarrow> string \<Rightarrow> string \<Rightarrow> string \<Rightarrow> exn + row list" where
  "filter_rows df country tech zone kpi =
     (if ''Country'' \<notin> set (columns df) then Inl (KeyError ''Country'')
      else if ''Technology'' \<notin> set (columns df) then Inl (KeyError ''Technology'')
      else if duplicated ''Country'' df \<or> duplicated ''Technology'' df then Inl ValueError
      else if ''Zone'' \<notin> set (columns df) then Inl (KeyError ''Zone'')
      else if duplicated ''Zone'' df then Inl ValueError
      else if ''KPI'' \<notin> set (columns df) then Inl (KeyError ''KPI'')
      else if duplicated ''KPI'' df then Inl ValueError
      else Inr (filter (\<lambda>r. Country r = Str country \<and> Technology r = Str tech
                           \<and> Zone r = Str zone \<and> KPI r = Str kpi) (rows df)))"

text \<open>\<open>mean\<close> of one group: missing cells are skipped, a group without numbers has mean
  NaN.\<close>

definition nan_mean :: "cell list \<Rightarrow> real option" where
  "nan_mean cs =
     (let xs = [x. Num x \<leftarrow> cs]
      in if xs = [] then None else Some (sum_list xs / real (length xs)))"

definition is_Str :: "cell \<Rightarrow> bool" where
  "is_Str c = (case c of Str _ \<Rightarrow> True | _ \<Rightarrow> False)"

text \<open>\<open>filtered.groupby('Date')[value_col].mean().reset_index()\<close>: one row per distinct
  date, in ascending order of the dates. The mean of a column that holds a string raises.\<close>

definition groupby_mean :: "row list \<Rightarrow> exn + (date \<times> real option) list" where
  "groupby_mean filtered =
     (if list_ex (\<lambda>r. is_Str (Value r)) filtered then Inl TypeError
      else Inr (map (\<lambda>d. (d, nan_mean [Value r. r \<leftarrow> filtered, Date r = d]))
                    (sort (remdups (map Date filtered)))))"

definition sort_values :: "(date \<times> real option) list \<Rightarrow> (date \<times> real option) list" where
  "sort_values ts = sort_key fst ts"

text \<open>Lines 30 to 49. The result is an exception, an early return with a message, or
  the series. Grouping by a label that occurs twice raises. When the label of the value
  column occurs twice, the mean has two columns \<open>y\<close> and the assignment of a lag column
  (line 53) raises; nothing can be observed between the mean and that line, and the
  exception is placed here.\<close>

definition series_extractor ::
  "dataframe \<Rightarrow> string \<Rightarrow> string \<Rightarrow> string \<Rightarrow> string \<Rightarrow> exn + (message + (date \<times> real option) list)" where
  "series_extractor df country tech zone kpi =
     (case filter_rows df country tech zone kpi of
        Inl e \<Rightarrow> Inl e
      | Inr filtered \<Rightarrow>
          if filtered = [] then Inr (Inl (Msg ''No data available for the selected inputs''))
          else if value_col \<notin> set (columns df)
          then Inr (Inl (Msg (''Expected column '' @ [CHR 0x27] @ value_col @ [CHR 0x27] @ '' not found'')))
          else if ''Date'' \<notin> set (columns df) then Inl (KeyError ''Date'')
          else if duplicated ''Date'' df then Inl ValueError
          else (case groupby_mean filtered of
                  Inl e \<Rightarrow> Inl e
                | Inr ts \<Rightarrow>
                    if duplicated value_col df then Inl ValueError
                    else Inr (Inr (sort_values ts))))"

section \<open>Feature Builder\<close>

definition create_features :: "(date \<times> real option) list \<Rightarrow> (date \<times> real option \<times> nat \<times> nat) list" where
  "create_features df = map (\<lambda>(ds, y). (ds, y, date_month ds, date_year ds)) df"

text \<open>\<open>Series.shift(lag)\<close>: same length, the first \<open>lag\<close> entries NaN.\<close>

definition shift :: "nat \<Rightarrow> real option list \<Rightarrow> real option list" where
  "shift lag ys = take (length ys) (replicate lag None @ ys)"

text \<open>Lines 52 and 53.\<close>

definition add_lags :: "(date \<times> real option \<times> nat \<times> nat) list \<Rightarrow> ts_row list" where
  "add_lags ts =
     (let ys = map (\<lambda>(ds, y, m, yr). y) ts
      in map (\<lambda>((ds, y, m, yr), l1, l2, l3).
                \<lparr>ts_ds = ds, ts_y = y, ts_month = m, ts_year = yr,
                 ts_y_lag_1 = l1, ts_y_lag_2 = l2, ts_y_lag_3 = l3\<rparr>)
             (zip ts (zip (shift 1 ys) (zip (shift 2 ys) (shift 3 ys)))))"

text \<open>Line 54: a row with a NaN in any column is dropped.\<close>

definition dropna_row :: "ts_row \<Rightarrow> feature_row option" where
  "dropna_row r =
     (case (ts_y r, ts_y_lag_1 r, ts_y_lag_2 r, ts_y_lag_3 r) of
        (Some v, Some l1, Some l2, Some l3) \<Rightarrow>
          Some \<lparr>fr_ds = ts_ds r, fr_y = v, fr_month = ts_month r, fr_year = ts_year r,
                fr_y_lag_1 = l1, fr_y_lag_2 = l2, fr_y_lag_3 = l3\<rparr>
      | _ \<Rightarrow> None)"

definition dropna :: "ts_row list \<Rightarrow> feature_row list" where
  "dropna ts = List.map_filter dropna_row ts"

text \<open>Lines 50 to 54.\<close>

definition feature_builder :: "(date \<times> real option) list \<Rightarrow> feature_row list" where
  "feature_builder ts = dropna (add_lags (create_features ts))"

section \<open>Forecast Engine\<close>

text \<open>\<open>d + pd.offsets.MonthBegin()\<close>: the first day of the month after \<open>d\<close>.\<close>

definition month_begin :: "date \<Rightarrow> date" where
  "month_begin d =
     (if date_month d = 12 then (date_year d + 1, 1, 1) else (date_year d, date_month d + 1, 1))"

fun month_starts :: "date \<Rightarrow> nat \<Rightarrow> date list" where
  "month_starts d 0 = []"
| "month_starts d (Suc n) = d # month_starts (month_begin d) n"

text \<open>\<open>pd.date_range(start, periods, freq='MS')\<close> from a month start: a negative number
  of periods gives the empty index, as zero does.\<close>

definition date_range :: "date \<Rightarrow> int \<Rightarrow> date list" where
  "date_range start periods = month_starts start (nat periods)"

text \<open>Lines 68 to 78; the list \<open>prev_lags\<close> always has three entries and is a triple here.
  \<open>[pred] + prev_lags[:2]\<close> shifts the prediction in.\<close>

fun predict_loop :: "model \<Rightarrow> date list \<Rightarrow> real \<times> real \<times> real \<Rightarrow> (date \<times> real) list" where
  "predict_loop m [] prev_lags = []"
| "predict_loop m (d # future_dates) (l1, l2, l3) =
     (let pred = m (date_month d, date_year d, l1, l2, l3)
      in (d, pred) # predict_loop m future_dates (pred, l1, l2))"

text \<open>Line 67: the seed of the recursion, read off the last row of \<open>ts\<close>.\<close>

definition seed_lags :: "feature_row \<Rightarrow> real \<times> real \<times> real" where
  "seed_lags last_row = (fr_y_lag_1 last_row, fr_y_lag_2 last_row, fr_y_lag_3 last_row)"

text \<open>Lines 62 to 78. \<open>ts.iloc[-1]\<close> raises on an empty frame.\<close>

definition forecast_engine :: "model \<Rightarrow> feature_row list \<Rightarrow> int \<Rightarrow> exn + (date \<times> real) list" where
  "forecast_engine m ts forecast_months =
     (if ts = [] then Inl IndexError
      else (let last_row = last ts;
                future_dates = date_range (month_begin (Max (set (map fr_ds ts)))) forecast_months
            in Inr (predict_loop m future_dates (seed_lags last_row))))"

section \<open>The forecast and the pipeline\<close>

definition features_of :: "feature_row \<Rightarrow> features" where
  "features_of r = (fr_month r, fr_year r, fr_y_lag_1 r, fr_y_lag_2 r, fr_y_lag_3 r)"

text \<open>\<open>row['ds'].date()\<close> in the summary (line 92): a Python \<open>date\<close> has a year from 1 to
  9999, and the conversion raises outside.\<close>

definition date_of_timestamp :: "date \<Rightarrow> exn + date" where
  "date_of_timestamp d = (if date_year d < 1 \<or> 9999 < date_year d then Inl ValueError else Inr d)"

text \<open>Lines 91 to 93: the lines of the summary, in the order of the forecasts; the first
  conversion that raises ends the loop.\<close>

fun summary_lines :: "(date \<times> real) list \<Rightarrow> exn + summary" where
  "summary_lines [] = Inr []"
| "summary_lines ((ds, yhat) # forecasts) =
     (case date_of_timestamp ds of
        Inl e \<Rightarrow> Inl e
      | Inr d \<Rightarrow> (case summary_lines forecasts of
                     Inl e \<Rightarrow> Inl e
                   | Inr ls \<Rightarrow> Inr ((d, yhat) # ls)))"

text \<open>The body of the \<open>try\<close> of \<open>forecast_kpi\<close>. A frame built from an empty list of
  forecasts has no column \<open>ds\<close>, which the figure reads (line 84).\<close>

definition forecast_body ::
  "env \<Rightarrow> dataframe \<Rightarrow> string \<Rightarrow> string \<Rightarrow> string \<Rightarrow> string \<Rightarrow> int
     \<Rightarrow> exn + (figure option \<times> summary option \<times> message option)" where
  "forecast_body env df country tech zone kpi forecast_months =
     (case series_extractor df country tech zone kpi of
        Inl e \<Rightarrow> Inl e
      | Inr (Inl msg) \<Rightarrow> Inr (None, None, Some msg)
      | Inr (Inr series) \<Rightarrow>
          (let ts = feature_builder series;
               X = map features_of ts;
               y = map fr_y ts
           in case fit env (zip X y) of
                Inl e \<Rightarrow> Inl e
              | Inr m \<Rightarrow>
                  (case forecast_engine m ts forecast_months of
                     Inl e \<Rightarrow> Inl e
                   | Inr forecasts \<Rightarrow>
                       if forecasts = [] then Inl (KeyError ''ds'')
                       else (let fig = \<lparr>actual = map (\<lambda>r. (fr_ds r, fr_y r)) ts,
                                        forecast = forecasts,
                                        title_parts = (kpi, zone, tech, country),
                                        xaxis_title = ''Date'', yaxis_title = kpi\<rparr>
                             in case summary_lines forecasts of
                                  Inl e \<Rightarrow> Inl e
                                | Inr summary \<Rightarrow> Inr (Some fig, Some summary, None)))))"

definition forecast_kpi ::
  "env \<Rightarrow> dataframe \<Rightarrow> string \<Rightarrow> string \<Rightarrow> string \<Rightarrow> string \<Rightarrow> int
     \<Rightarrow> figure option \<times> summary option \<times> message option" where
  "forecast_kpi env df country tech zone kpi forecast_months =
     (case forecast_body env df country tech zone kpi forecast_months of
        Inl e \<Rightarrow> (None, None, Some (Forecast_failed e))
      | Inr result \<Rightarrow> result)"

definition endswith :: "string \<Rightarrow> string \<Rightarrow> bool" where
  "endswith s suffix = (length suffix \<le> length s \<and> drop (length s - length suffix) s = suffix)"

text \<open>\<open>os.path.join\<close> (POSIX) of two components.\<close>

definition path_join :: "string \<Rightarrow> string \<Rightarrow> string" where
  "path_join a b =
     (if b \<noteq> [] \<and> hd b = CHR ''/'' then b
      else if a = [] \<or> last a = CHR ''/'' then a @ b
      else a @ ''/'' @ b)"

text \<open>\<open>str.strip\<close>: white space removed at both ends.\<close>

definition is_space :: "char \<Rightarrow> bool" where
  "is_space c = ((of_char c :: nat) \<in> {9, 10, 11, 12, 13, 28, 29, 30, 31, 32, 133, 160})"

definition strip :: "string \<Rightarrow> string" where
  "strip s = rev (dropWhile is_space (rev (dropWhile is_space s)))"

text \<open>\<open>df.columns.str.strip()\<close> (line 123). The accessor \<open>str\<close> raises on an index that
  holds no string (an empty index, numeric headers). Otherwise every string is stripped
  and every other label becomes NaN. Labels that are equal after stripping stay apart.\<close>

definition columns_str_strip :: "cell list \<Rightarrow> exn + cell list" where
  "columns_str_strip index =
     (if \<not> list_ex is_Str index then Inl AttributeError
      else Inr (map (\<lambda>label. case label of Str s \<Rightarrow> Str (strip s) | _ \<Rightarrow> NaN) index))"

text \<open>\<open>df[label] = value\<close>: every column of that label is overwritten; a new label goes to
  the end of the index.\<close>

definition set_column :: "string \<Rightarrow> cell list \<Rightarrow> cell list" where
  "set_column label index = (if Str label \<in> set index then index else index @ [Str label])"

text \<open>The body of the loop over the spreadsheet files (lines 121 to 130): \<open>None\<close> when
  the file contributes no record, which is the case whenever a step raises.\<close>

definition load_record :: "env \<Rightarrow> string \<Rightarrow> sheet option" where
  "load_record env path =
     (case read_excel env path of
        Inl e \<Rightarrow> None
      | Inr df \<Rightarrow>
          (case columns_str_strip (sheet_labels df) of
             Inl e \<Rightarrow> None
           | Inr cols \<Rightarrow>
               (case extract_date_from_filename path of
                  None \<Rightarrow> None
                | Some date_str \<Rightarrow>
                    if date_str = [] then None
                    else (case to_datetime env date_str of
                            Inl e \<Rightarrow> None
                          | Inr d \<Rightarrow>
                              Some \<lparr>sheet_labels = set_column ''source_file'' (set_column ''Date'' cols),
                                    sheet_rows = map (\<lambda>r. r\<lparr>Date := d\<rparr>) (sheet_rows df)\<rparr>))))"

text \<open>The labels of an index that are strings.\<close>

definition string_labels :: "cell list \<Rightarrow> string list" where
  "string_labels index = [s. Str s \<leftarrow> index]"

text \<open>A row of a frame that lacks a column has NaN there after \<open>pd.concat\<close>.\<close>

definition fill_missing :: "string list \<Rightarrow> row \<Rightarrow> row" where
  "fill_missing cols r =
     r\<lparr>Country := if ''Country'' \<in> set cols then Country r else NaN,
       Technology := if ''Technology'' \<in> set cols then Technology r else NaN,
       Zone := if ''Zone'' \<in> set cols then Zone r else NaN,
       KPI := if ''KPI'' \<in> set cols then KPI r else NaN,
       Value := if value_col \<in> set cols then Value r else NaN\<rparr>"

text \<open>The union of several indexes: every label once, in the order of first occurrence.\<close>

definition union_labels :: "cell list list \<Rightarrow> cell list" where
  "union_labels indexes = rev (remdups (rev (concat indexes)))"

text \<open>\<open>pd.concat(records, ignore_index=True)\<close> (line 135). When all records have the same
  column index, it is kept as it is. Otherwise the result has the union of the labels, and
  a record whose index holds a label twice cannot be aligned with it: the call raises.
  Every record has the column \<open>Date\<close>.\<close>

definition concat_frames :: "sheet list \<Rightarrow> exn + dataframe" where
  "concat_frames records =
     (if records = [] then Inl ValueError
      else (let same = list_all (\<lambda>df. sheet_labels df = sheet_labels (hd records)) records
            in if \<not> same \<and> list_ex (\<lambda>df. \<not> distinct (sheet_labels df)) records
               then Inl (External ''InvalidIndexError'')
               else Inr \<lparr>columns = string_labels
                              (if same then sheet_labels (hd records)
                               else union_labels (map sheet_labels records)),
                         rows = concat (map (\<lambda>df. map (fill_missing (string_labels (sheet_labels df)))
                                                       (sheet_rows df)) records)\<rparr>))"

text \<open>Lines 102 to 135: the unified dataset, an early return with a message, or an
  exception.\<close>

definition aggregate_records :: "env \<Rightarrow> string \<Rightarrow> exn + (message + dataframe)" where
  "aggregate_records env zip_buffer =
     (case walk_zip env zip_buffer of
        Inl e \<Rightarrow> Inl e
      | Inr found \<Rightarrow>
          (let excel_files =
                 [path_join root_dir fn. (root_dir, fn) \<leftarrow> found,
                    endswith (map to_lower fn) ''.xlsx'' \<or> endswith (map to_lower fn) ''.xls'']
           in if excel_files = [] then Inr (Inl (Msg ''No Excel files found in ZIP archive''))
              else (let records = List.map_filter (load_record env) excel_files
                    in if records = [] then Inr (Inl (Msg ''No valid data found in Excel files''))
                       else (case concat_frames records of
                               Inl e \<Rightarrow> Inl e
                             | Inr df_all \<Rightarrow> Inr (Inr df_all)))))"

text \<open>The truth value of \<open>err\<close> in \<open>if err:\<close>.\<close>

fun truthy :: "message option \<Rightarrow> bool" where
  "truthy None = False"
| "truthy (Some (Msg s)) = (s \<noteq> [])"
| "truthy (Some (Forecast_failed e)) = True"
| "truthy (Some (Pipeline_error e)) = True"

definition pipeline_body ::
  "env \<Rightarrow> string \<Rightarrow> string \<Rightarrow> string \<Rightarrow> string \<Rightarrow> string \<Rightarrow> int
     \<Rightarrow> exn + (string option \<times> summary option \<times> message option)" where
  "pipeline_body env zip_buffer country tech zone kpi forecast_months =
     (case aggregate_records env zip_buffer of
        Inl e \<Rightarrow> Inl e
      | Inr (Inl msg) \<Rightarrow> Inr (None, None, Some msg)
      | Inr (Inr df_all) \<Rightarrow>
          (case forecast_kpi env df_all country tech zone kpi forecast_months of
             (fig, summary, err) \<Rightarrow>
               if truthy err then Inr (None, None, err)
               else (case fig of
                       None \<Rightarrow> Inl AttributeError
                     | Some f \<Rightarrow>
                         (case to_json env f of
                            Inl e \<Rightarrow> Inl e
                          | Inr plot_json \<Rightarrow> Inr (Some plot_json, summary, None)))))"

definition run_forecast_pipeline ::
  "env \<Rightarrow> string \<Rightarrow> string \<Rightarrow> string \<Rightarrow> string \<Rightarrow> string \<Rightarrow> int
     \<Rightarrow> string option \<times> summary option \<times> message option" where
  "run_forecast_pipeline env zip_buffer country tech zone kpi forecast_months =
     (case pipeline_body env zip_buffer country tech zone kpi forecast_months of
        Inl e \<Rightarrow> (None, None, Some (Pipeline_error e))
      | Inr result \<Rightarrow> result)"

section \<open>Notions used to state the properties of the forecast\<close>

text \<open>A calendar-month start: day 1 of a month 1..12.\<close>

definition month_start :: "date \<Rightarrow> bool" where
  "month_start d = (date_day d = 1 \<and> 1 \<le> date_month d \<and> date_month d \<le> 12)"

text \<open>The months counted from year 0: two month starts are consecutive calendar months
  when their counts differ by one.\<close>

definition month_index :: "date \<Rightarrow> nat" where
  "month_index d = 12 * date_year d + date_month d"

text \<open>The numbers among the value-column entries of the rows that carry the date \<open>d\<close>.\<close>

definition numeric_entries :: "row list \<Rightarrow> date \<Rightarrow> real list" where
  "numeric_entries rs d = [x. r \<leftarrow> rs, Date r = d, Num x \<leftarrow> [Value r]]"

subsection \<open>An example archive\<close>

text \<open>A table with one row for (France, 4G, ZoneA, Availability) and the value \<open>v\<close>, and
  the spreadsheet that holds it. It has no column \<open>Date\<close> yet; the field is set when the
  file is loaded.\<close>

definition one_row_frame :: "real \<Rightarrow> dataframe" where
  "one_row_frame v =
     \<lparr>columns = [''Country'', ''Technology'', ''Zone'', ''KPI'', value_col],
      rows = [\<lparr>Country = Str ''France'', Technology = Str ''4G'', Zone = Str ''ZoneA'',
               KPI = Str ''Availability'', Date = (0, 0, 0), Value = Num v\<rparr>]\<rparr>"

definition one_row_sheet :: "real \<Rightarrow> sheet" where
  "one_row_sheet v =
     \<lparr>sheet_labels = map Str (columns (one_row_frame v)), sheet_rows = rows (one_row_frame v)\<rparr>"

text \<open>Collaborators for an archive that holds the listed spreadsheets, each with one row
  of the given value. The regressor fits any training set, also an empty one, and predicts
  0; dates of the year 2024 parse.\<close>

definition archive_env :: "(string \<times> real) list \<Rightarrow> env" where
  "archive_env files =
     \<lparr>walk_zip = (\<lambda>zip_buffer. Inr ((''/tmp/w'', ''upload.zip'') # map (\<lambda>(fn, v). (''/tmp/w'', fn)) files)),
      read_excel = (\<lambda>path. case map_of files (basename path) of
                              None \<Rightarrow> Inl (External ''FileNotFoundError'')
                            | Some v \<Rightarrow> Inr (one_row_sheet v)),
      to_datetime = (\<lambda>s. case map_of [(''2024-01-01'', (2024, 1, 1)), (''2024-02-01'', (2024, 2, 1)),
                                         (''2024-03-01'', (2024, 3, 1)), (''2024-04-01'', (2024, 4, 1))] s of
                              None \<Rightarrow> Inl (External ''ParserError'')
                            | Some d \<Rightarrow> Inr d),
      fit = (\<lambda>train. Inr (\<lambda>x. 0)),
      to_json = (\<lambda>fig. Inr ''{}'')\<rparr>"

section \<open>Properties of the Filename Date Resolver\<close>

lemma to_upper_to_lower: "to_upper (to_lower c) = to_upper c"
proof (cases "is_upper c")
  case True
  then have n: "65 \<le> (of_char c :: nat)" "(of_char c :: nat) \<le> 90"
    by (simp_all add: is_upper_def)
  then have "\<not> is_lower c" by (simp add: is_lower_def)
  moreover have "(of_char c + 32 :: nat) mod 256 = of_char c + 32" using n by simp
  ultimately show ?thesis using True n
    by (simp add: to_upper_def to_lower_def is_lower_def)
next
  case False
  then show ?thesis by (simp add: to_lower_def)
qed

lemma to_lower_idem: "to_lower (to_lower c) = to_lower c"
proof (cases "is_upper c")
  case True
  then have n: "65 \<le> (of_char c :: nat)" "(of_char c :: nat) \<le> 90"
    by (simp_all add: is_upper_def)
  have "(of_char c + 32 :: nat) mod 256 = of_char c + 32" using n by simp
  then have "\<not> is_upper (to_lower c)" using True n
    by (simp add: to_lower_def is_upper_def)
  then show ?thesis by (simp add: to_lower_def)
next
  case False
  then show ?thesis by (simp add: to_lower_def)
qed

lemma is_letter_to_lower: "is_letter (to_lower c) = is_letter c"
proof (cases "is_upper c")
  case True
  then have n: "65 \<le> (of_char c :: nat)" "(of_char c :: nat) \<le> 90"
    by (simp_all add: is_upper_def)
  have "(of_char c + 32 :: nat) mod 256 = of_char c + 32" using n by simp
  then have "is_lower (to_lower c)" using True n
    by (simp add: to_lower_def is_lower_def)
  then show ?thesis using True by (simp add: is_letter_def)
next
  case False
  then show ?thesis by (simp add: to_lower_def)
qed

lemma capitalize_to_lower: "capitalize (map to_lower s) = capitalize s"
  by (cases s) (simp_all add: to_upper_to_lower to_lower_idem)

lemma same_ignoring_case_capitalize:
  "same_ignoring_case a b \<Longrightarrow> capitalize a = capitalize b"
  unfolding same_ignoring_case_def by (metis capitalize_to_lower)

lemma same_ignoring_case_letters:
  assumes "same_ignoring_case a b"
  shows "list_all is_letter a = list_all is_letter b"
proof -
  have "list_all is_letter (map to_lower s) = list_all is_letter s" for s
    by (induction s) (simp_all add: is_letter_to_lower)
  then show ?thesis using assms unfolding same_ignoring_case_def by metis
qed

lemma same_ignoring_case_length: "same_ignoring_case a b \<Longrightarrow> length a = length b"
  unfolding same_ignoring_case_def by (metis length_map)

lemma month_facts:
  assumes "1 \<le> k" "k \<le> 12"
  shows "length (month_abbr ! k) = 3 \<and> list_all is_letter (month_abbr ! k)
     \<and> month_map (capitalize (month_abbr ! k)) = Some (fmt02d k) \<and> fmt02d k \<noteq> []"
proof -
  have "k = 1 \<or> k = 2 \<or> k = 3 \<or> k = 4 \<or> k = 5 \<or> k = 6 \<or> k = 7 \<or> k = 8 \<or> k = 9
      \<or> k = 10 \<or> k = 11 \<or> k = 12" using assms by arith
  then show ?thesis
    by (elim disjE; hypsubst; code_simp)
qed

lemma basename_no_sep: "CHR ''/'' \<notin> set p \<Longrightarrow> basename p = p"
proof -
  assume "CHR ''/'' \<notin> set p"
  then have "\<forall>x \<in> set (rev p). x \<noteq> CHR ''/''" by auto
  then have "takeWhile (\<lambda>c. c \<noteq> CHR ''/'') (rev p) = rev p"
    by (rule takeWhile_eq_all_conv [THEN iffD2])
  then show ?thesis unfolding basename_def by (simp only: rev_rev_ident)
qed

lemma rfind_last: "c \<notin> set t \<Longrightarrow> rfind c (s @ c # t) = Some (length s)"
proof -
  assume a: "c \<notin> set t"
  have "takeWhile (\<lambda>x. x \<noteq> c) (rev t @ c # rev s) = rev t"
    using a by (auto simp: takeWhile_tail)
  then show ?thesis by (simp add: rfind_def)
qed

lemma rfind_none: "c \<notin> set p \<Longrightarrow> rfind c p = None"
  by (simp add: rfind_def)

lemma splitext_plain:
  assumes "CHR ''/'' \<notin> set (s @ CHR ''.'' # t)" "CHR ''.'' \<notin> set t" "list_ex (\<lambda>c. c \<noteq> CHR ''.'') s"
  shows "splitext (s @ CHR ''.'' # t) = (s, CHR ''.'' # t)"
  using assms by (simp add: splitext_def rfind_last rfind_none)

lemma is_letter_not_special: "is_letter c \<Longrightarrow> c \<noteq> CHR ''/'' \<and> c \<noteq> CHR ''.''"
  by (auto simp: is_letter_def is_upper_def is_lower_def)

lemma is_digit_not_special: "is_digit c \<Longrightarrow> c \<noteq> CHR ''/'' \<and> c \<noteq> CHR ''.''"
  by (auto simp: is_digit_def)

lemma str_extract_head:
  assumes "length M = 3" "list_all is_letter M" "length Y = 4" "list_all is_digit Y"
  shows "str_extract (M @ Y @ rest) = Some (M, Y)"
proof -
  obtain a M' where M: "M = a # M'" using assms(1) by (cases M) auto
  have "match_here (M @ Y @ rest)" using assms by (simp add: match_here_def)
  then show ?thesis using assms unfolding M by simp
qed

lemma resolve_report:
  assumes k: "1 \<le> k" "k \<le> 12" and M: "same_ignoring_case M (month_abbr ! k)"
    and Y: "length Y = 4" "list_all is_digit Y"
  shows "extract_date_from_filename (M @ Y @ ''_report.xlsx'') = Some (Y @ ''-'' @ fmt02d k @ ''-01'')"
proof -
  note mf = month_facts [OF k]
  have lenM: "length M = 3" using same_ignoring_case_length [OF M] mf by simp
  have letM: "list_all is_letter M" using same_ignoring_case_letters [OF M] mf by simp
  have capM: "month_map (capitalize M) = Some (fmt02d k)"
    using same_ignoring_case_capitalize [OF M] mf by simp
  let ?s = "M @ Y @ ''_report''"
  have split: "M @ Y @ ''_report.xlsx'' = ?s @ CHR ''.'' # ''xlsx''" by simp
  have nosep: "CHR ''/'' \<notin> set (?s @ CHR ''.'' # ''xlsx'')"
    using letM Y(2) is_letter_not_special is_digit_not_special
    by (auto simp: list_all_iff)
  obtain a M' where Mc: "M = a # M'" using lenM by (cases M) auto
  have "is_letter a" using letM Mc by simp
  then have ex: "list_ex (\<lambda>c. c \<noteq> CHR ''.'') ?s"
    using is_letter_not_special Mc by auto
  have base: "fst (splitext (basename (M @ Y @ ''_report.xlsx''))) = ?s"
    unfolding split using basename_no_sep [OF nosep] splitext_plain [OF nosep _ ex] by simp
  have "str_extract ?s = Some (M, Y)"
    by (rule str_extract_head [OF lenM letM Y])
  then show ?thesis
    using base capM mf by (simp add: extract_date_from_filename_def)
qed


lemma to_lower_to_upper: "to_lower (to_upper c) = to_lower c"
proof (cases "is_lower c")
  case True
  then have n: "97 \<le> (of_char c :: nat)" "(of_char c :: nat) \<le> 122"
    by (simp_all add: is_lower_def)
  then have nu: "\<not> is_upper c" by (simp add: is_upper_def)
  have m: "(of_char c - 32 :: nat) mod 256 = of_char c - 32" using n by simp
  have "65 \<le> (of_char c :: nat) - 32 \<and> (of_char c :: nat) - 32 \<le> 90" using n by arith
  then have "is_upper (to_upper c)" using True m
    by (simp add: to_upper_def is_upper_def)
  moreover have "char_of ((of_char c :: nat) - 32 + 32) = c" using n by simp
  ultimately show ?thesis using True n m nu
    by (simp add: to_upper_def to_lower_def)
next
  case False
  then show ?thesis by (simp add: to_upper_def)
qed

lemma same_ignoring_case_capitalized: "same_ignoring_case mon (capitalize mon)"
  by (cases mon) (simp_all add: same_ignoring_case_def to_lower_to_upper to_lower_idem)

lemma month_map_dom:
  assumes "month_map x = Some mm"
  shows "\<exists>k. 1 \<le> k \<and> k < 13 \<and> x = month_abbr ! k"
proof -
  have "x \<in> dom month_map" using assms by auto
  moreover have "dom month_map = set (tl month_abbr)"
    unfolding month_map_def dom_map_of_conv_image_fst
    by (auto simp: month_abbr_def enumerate_eq_zip upt_rec [of 0] upt_rec [of "Suc _"] numeral_nat)
  ultimately have "x \<in> set (tl month_abbr)" by simp
  then obtain j where "j < length (tl month_abbr)" "x = tl month_abbr ! j"
    by (metis in_set_conv_nth)
  then have "1 \<le> Suc j \<and> Suc j < 13 \<and> x = month_abbr ! Suc j"
    by (simp add: month_abbr_def)
  then show ?thesis by blast
qed

lemma month_number_capitalize:
  assumes "month_map (capitalize mon) = Some mm"
  shows "month_number mon \<noteq> None"
proof -
  obtain k where k: "1 \<le> k" "k < 13" "capitalize mon = month_abbr ! k"
    using month_map_dom [OF assms] by blast
  have "same_ignoring_case mon (month_abbr ! k)"
    using same_ignoring_case_capitalized [of mon] k(3) by simp
  then show ?thesis using k(1,2)
    by (auto simp: month_number_def find_None_iff)
qed

lemma month_number_Some:
  assumes "month_number mon = Some k"
  shows "month_map (capitalize mon) = Some (fmt02d k) \<and> fmt02d k \<noteq> []"
proof -
  have "1 \<le> k \<and> k < 13 \<and> same_ignoring_case mon (month_abbr ! k)"
    using assms by (auto simp: month_number_def find_Some_iff)
  then have k: "1 \<le> k" "k \<le> 12" and s: "same_ignoring_case mon (month_abbr ! k)" by auto
  show ?thesis using same_ignoring_case_capitalize [OF s] month_facts [OF k] by simp
qed

lemma str_extract_Some:
  "str_extract s = Some (mon, yr) \<Longrightarrow>
     \<exists>i. match_here (drop i s) \<and> mon = take 3 (drop i s) \<and> yr = take 4 (drop 3 (drop i s))"
proof (induction s)
  case Nil
  then show ?case by simp
next
  case (Cons c cs)
  show ?case
  proof (cases "match_here (c # cs)")
    case True
    then have "match_here (drop 0 (c # cs)) \<and> mon = take 3 (drop 0 (c # cs))
        \<and> yr = take 4 (drop 3 (drop 0 (c # cs)))"
      using Cons.prems by simp
    then show ?thesis by blast
  next
    case False
    then have "str_extract cs = Some (mon, yr)" using Cons.prems by simp
    then obtain i where "match_here (drop i cs) \<and> mon = take 3 (drop i cs)
        \<and> yr = take 4 (drop 3 (drop i cs))"
      using Cons.IH by blast
    then have "match_here (drop (Suc i) (c # cs)) \<and> mon = take 3 (drop (Suc i) (c # cs))
        \<and> yr = take 4 (drop 3 (drop (Suc i) (c # cs)))"
      by simp
    then show ?thesis by blast
  qed
qed

lemma str_extract_first:
  "match_here (drop i s) \<Longrightarrow> \<forall>j<i. \<not> match_here (drop j s) \<Longrightarrow>
     str_extract s = Some (take 3 (drop i s), take 4 (drop 3 (drop i s)))"
proof (induction s arbitrary: i)
  case Nil
  then show ?case by (simp add: match_here_def)
next
  case (Cons c cs)
  show ?case
  proof (cases i)
    case 0
    then show ?thesis using Cons.prems(1) by simp
  next
    case (Suc i')
    have nm: "\<not> match_here (c # cs)" using Cons.prems(2) Suc by fastforce
    have m': "match_here (drop i' cs)" using Cons.prems(1) Suc by simp
    have "\<forall>j<i'. \<not> match_here (drop j cs)"
    proof (intro allI impI)
      fix j assume "j < i'"
      then have "\<not> match_here (drop (Suc j) (c # cs))" using Cons.prems(2) Suc by blast
      then show "\<not> match_here (drop j cs)" by simp
    qed
    then have "str_extract cs = Some (take 3 (drop i' cs), take 4 (drop 3 (drop i' cs)))"
      using Cons.IH [OF m'] by blast
    then show ?thesis using nm Suc by simp
  qed
qed

lemma str_extract_None: "\<forall>i. \<not> match_here (drop i s) \<Longrightarrow> str_extract s = None"
proof (induction s)
  case Nil
  then show ?case by simp
next
  case (Cons c cs)
  have "\<not> match_here (drop 0 (c # cs))" using Cons.prems by blast
  moreover have "\<forall>i. \<not> match_here (drop i cs)"
  proof
    fix i
    have "\<not> match_here (drop (Suc i) (c # cs))" using Cons.prems by blast
    then show "\<not> match_here (drop i cs)" by simp
  qed
  ultimately show ?case using Cons.IH by simp
qed

lemma match_here_take:
  assumes "match_here (take n xs)"
  shows "match_here xs \<and> take 3 (take n xs) = take 3 xs
     \<and> take 4 (drop 3 (take n xs)) = take 4 (drop 3 xs)"
proof -
  have n: "7 \<le> n" "7 \<le> length xs" using assms by (simp_all add: match_here_def)
  then have a: "take 3 (take n xs) = take 3 xs" by (simp add: min_def)
  have b: "take 4 (drop 3 (take n xs)) = take 4 (drop 3 xs)"
    using n by (simp add: drop_take min_def)
  show ?thesis using assms a b n by (simp add: match_here_def)
qed

lemma stem_segment: "\<exists>k n. stem f = take n (drop k f)"
proof -
  have b: "\<exists>k. basename f = drop k f"
  proof -
    have "takeWhile (\<lambda>c. c \<noteq> CHR ''/'') (rev f) = take (length (takeWhile (\<lambda>c. c \<noteq> CHR ''/'') (rev f))) (rev f)"
      by (metis takeWhile_eq_take)
    then have "basename f = rev (take (length (takeWhile (\<lambda>c. c \<noteq> CHR ''/'') (rev f))) (rev f))"
      by (simp add: basename_def)
    then show ?thesis by (metis rev_take rev_rev_ident)
  qed
  have s: "\<exists>n. fst (splitext p) = take n p" for p
  proof -
    have "fst (splitext p) = p \<or> (\<exists>d. fst (splitext p) = take d p)"
      by (auto simp: splitext_def Let_def split: option.splits)
    then show ?thesis by (metis take_all order_refl)
  qed
  show ?thesis unfolding stem_def using b s by metis
qed

lemma stem_match:
  assumes "letters_digits_at (stem f) i"
  shows "\<exists>k. letters_digits_at f (i + k) \<and> take 3 (drop i (stem f)) = take 3 (drop (i + k) f)
     \<and> take 4 (drop 3 (drop i (stem f))) = take 4 (drop 3 (drop (i + k) f))"
proof -
  obtain k n where st: "stem f = take n (drop k f)" using stem_segment by blast
  have d: "drop i (stem f) = take (n - i) (drop (i + k) f)"
    unfolding st by (simp add: drop_take add.commute)
  have m: "match_here (take (n - i) (drop (i + k) f))"
    using assms d by (simp add: letters_digits_at_def)
  note mt = match_here_take [OF m]
  have y: "take 4 (drop 3 (drop i (stem f))) = take 4 (drop 3 (drop (i + k) f))"
    using mt d by simp
  show ?thesis using mt d y by (auto simp: letters_digits_at_def)
qed

lemma resolve_none:
  assumes "\<forall>i. \<not> month_year_at filename i"
  shows "extract_date_from_filename filename = None"
proof (rule ccontr)
  assume "extract_date_from_filename filename \<noteq> None"
  then obtain mon yr mm where e: "str_extract (stem filename) = Some (mon, yr)"
    and mm: "month_map (capitalize mon) = Some mm"
    by (auto simp: extract_date_from_filename_def stem_def Let_def split: option.splits if_splits)
  obtain i where i: "match_here (drop i (stem filename))" "mon = take 3 (drop i (stem filename))"
    using str_extract_Some [OF e] by blast
  then have "letters_digits_at (stem filename) i" by (simp add: letters_digits_at_def)
  then obtain k where k: "letters_digits_at filename (i + k)"
    "take 3 (drop i (stem filename)) = take 3 (drop (i + k) filename)"
    using stem_match by blast
  have "month_number (take 3 (drop (i + k) filename)) \<noteq> None"
    using month_number_capitalize [OF mm] i(2) k(2) by simp
  then have "month_year_at filename (i + k)" using k(1) by (simp add: month_year_at_def)
  then show False using assms by blast
qed

lemma resolve_first:
  assumes "letters_digits_at (stem f) i" "\<forall>j<i. \<not> letters_digits_at (stem f) j"
  shows "extract_date_from_filename f = date_string_at (stem f) i"
proof -
  have e: "str_extract (stem f) = Some (take 3 (drop i (stem f)), take 4 (drop 3 (drop i (stem f))))"
    using assms str_extract_first [of i "stem f"] by (simp add: letters_digits_at_def)
  show ?thesis
  proof (cases "month_number (take 3 (drop i (stem f)))")
    case None
    then have "month_map (capitalize (take 3 (drop i (stem f)))) = None"
      using month_number_capitalize by (cases "month_map (capitalize (take 3 (drop i (stem f))))") auto
    then show ?thesis using e None
      by (simp add: extract_date_from_filename_def date_string_at_def stem_def [symmetric])
  next
    case (Some k)
    then show ?thesis using e month_number_Some [OF Some]
      by (simp add: extract_date_from_filename_def date_string_at_def stem_def [symmetric])
  qed
qed

lemma resolve_no_match:
  assumes "\<forall>i. \<not> letters_digits_at (stem f) i"
  shows "extract_date_from_filename f = None"
  using str_extract_None [of "stem f"] assms
  by (simp add: extract_date_from_filename_def letters_digits_at_def stem_def [symmetric])

lemma all_less_list: "list_all P [0..<n] \<Longrightarrow> \<forall>j<n. P j"
  by (simp add: list_all_iff)

lemma month_year_at_bound: "month_year_at s i \<Longrightarrow> i < length s"
proof -
  assume "month_year_at s i"
  then have "7 \<le> length s - i"
    by (simp add: month_year_at_def letters_digits_at_def match_here_def)
  then show ?thesis by arith
qed

lemma no_month_year: "list_all (\<lambda>i. \<not> month_year_at s i) [0..<length s] \<Longrightarrow> \<forall>i. \<not> month_year_at s i"
  using month_year_at_bound by (fastforce simp: list_all_iff)

text \<open>
  C3, as amended. The resolver reads the leftmost place of the stem where three ASCII letters
  are followed by four digits. When a month abbreviation (in any letter case) with a
  four-digit year starts at position \<open>i\<close> of the stem and no three letters followed by four
  digits start earlier, the result is the date \<open>year-mm-01\<close> of that substring, which is then
  the first month and year of the stem. When the leftmost three letters followed by four
  digits are not a month abbreviation, the result is no date, whatever follows.
\<close>

theorem resolver_leftmost_match:
  "(month_year_at (stem f) i \<and> (\<forall>j<i. \<not> letters_digits_at (stem f) j)
      \<longrightarrow> extract_date_from_filename f = date_string_at (stem f) i
          \<and> date_string_at (stem f) i \<noteq> None
          \<and> (\<forall>j<i. \<not> month_year_at (stem f) j))
   \<and> (letters_digits_at (stem f) i \<and> (\<forall>j<i. \<not> letters_digits_at (stem f) j)
        \<and> \<not> month_year_at (stem f) i
      \<longrightarrow> extract_date_from_filename f = None)"
proof (intro conjI impI)
  assume a: "month_year_at (stem f) i \<and> (\<forall>j<i. \<not> letters_digits_at (stem f) j)"
  then show "extract_date_from_filename f = date_string_at (stem f) i"
    using resolve_first [of f i] by (simp add: month_year_at_def)
  show "date_string_at (stem f) i \<noteq> None"
    using a by (auto simp: month_year_at_def date_string_at_def split: option.splits)
  show "\<forall>j<i. \<not> month_year_at (stem f) j"
    using a by (simp add: month_year_at_def)
next
  assume a: "letters_digits_at (stem f) i \<and> (\<forall>j<i. \<not> letters_digits_at (stem f) j)
        \<and> \<not> month_year_at (stem f) i"
  then have "month_number (take 3 (drop i (stem f))) = None"
    by (simp add: month_year_at_def)
  then have "date_string_at (stem f) i = None" by (simp add: date_string_at_def)
  then show "extract_date_from_filename f = None"
    using a resolve_first [of f i] by simp
qed

theorem resolver_leftmost_match_witness:
  "extract_date_from_filename ''/tmp/x/KPI_Jan2024.xlsx'' = Some ''2024-01-01''
   \<and> month_year_at (stem ''/tmp/x/KPI_Jan2024.xlsx'') 4
   \<and> letters_digits_at (stem ''abc1234_Feb2024.xls'') 0
   \<and> \<not> month_year_at (stem ''abc1234_Feb2024.xls'') 0
   \<and> extract_date_from_filename ''abc1234_Feb2024.xls'' = None"
proof -
  let ?f = "''/tmp/x/KPI_Jan2024.xlsx''" and ?g = "''abc1234_Feb2024.xls''"
  have m: "month_year_at (stem ?f) 4" by code_simp
  have "list_all (\<lambda>j. \<not> letters_digits_at (stem ?f) j) [0..<4]" by code_simp
  then have n: "\<forall>j<4. \<not> letters_digits_at (stem ?f) j" by (rule all_less_list)
  have d: "date_string_at (stem ?f) 4 = Some ''2024-01-01''" by code_simp
  have l: "letters_digits_at (stem ?g) 0" by code_simp
  have nm: "\<not> month_year_at (stem ?g) 0" by code_simp
  show ?thesis
    using resolver_leftmost_match [of ?f 4] resolver_leftmost_match [of ?g 0] m n d l nm
    by simp
qed

text \<open>
  C3, as stated, fails: the stem of \<open>data2023_Jan2024.xlsx\<close> contains the month and year
  \<open>Jan2024\<close> (at position 9), and the resolver returns no date, because the leftmost three
  letters followed by four digits are \<open>ata2023\<close>.
\<close>

theorem resolver_first_month_year_counterexample:
  "month_year_at (stem ''data2023_Jan2024.xlsx'') 9
   \<and> date_string_at (stem ''data2023_Jan2024.xlsx'') 9 = Some ''2024-01-01''
   \<and> extract_date_from_filename ''data2023_Jan2024.xlsx'' = None"
  by code_simp

text \<open>
  C4. For each of the twelve month abbreviations \<open>month_abbr ! k\<close> written in any letter
  case as \<open>M\<close>, and every year \<open>Y\<close> of four digits, the file name \<open>M Y _report.xlsx\<close>
  resolves to \<open>Y-mm-01\<close>, where \<open>mm\<close> is \<open>k\<close> on two digits. A file name in which no month
  abbreviation followed by a four-digit year starts at any position resolves to no date:
  the function returns \<open>None\<close>, it has no error result.
\<close>

theorem resolver_report_names:
  "(1 \<le> k \<and> k \<le> 12 \<and> same_ignoring_case M (month_abbr ! k) \<and> length Y = 4 \<and> list_all is_digit Y
      \<longrightarrow> extract_date_from_filename (M @ Y @ ''_report.xlsx'') = Some (Y @ ''-'' @ fmt02d k @ ''-01''))
   \<and> ((\<forall>i. \<not> month_year_at filename i) \<longrightarrow> extract_date_from_filename filename = None)"
  using resolve_report [of k M Y] resolve_none [of filename] by blast

theorem resolver_report_names_witness:
  "extract_date_from_filename ''sEP2031_report.xlsx'' = Some ''2031-09-01''
   \<and> (\<forall>i. \<not> month_year_at ''report_2024_final.xlsx'' i)
   \<and> extract_date_from_filename ''report_2024_final.xlsx'' = None"
proof -
  have k: "same_ignoring_case ''sEP'' (month_abbr ! 9)" "list_all is_digit ''2031''"
    "fmt02d 9 = ''09''"
    by code_simp+
  have "list_all (\<lambda>i. \<not> month_year_at ''report_2024_final.xlsx'' i)
          [0..<length ''report_2024_final.xlsx'']"
    by code_simp
  then have n: "\<forall>i. \<not> month_year_at ''report_2024_final.xlsx'' i" by (rule no_month_year)
  show ?thesis
    using resolver_report_names [of 9 "''sEP''" "''2031''" "''report_2024_final.xlsx''"] k n
    by simp
qed

section \<open>Properties of the Feature Builder and the Forecast Engine\<close>

lemma shift_length: "length (shift k ys) = length ys"
  by (simp add: shift_def)

lemma shift_nth:
  "i < length ys \<Longrightarrow> shift k ys ! i = (if i < k then None else ys ! (i - k))"
  by (simp add: shift_def nth_append)

lemma create_features_ys: "map (\<lambda>(ds, y, m, yr). y) (create_features s) = map snd s"
  by (simp add: create_features_def case_prod_unfold)

lemma create_features_length: "length (create_features s) = length s"
  by (simp add: create_features_def)

lemma create_features_nth:
  "i < length s \<Longrightarrow> create_features s ! i =
     (fst (s ! i), snd (s ! i), date_month (fst (s ! i)), date_year (fst (s ! i)))"
  by (simp add: create_features_def case_prod_unfold)

lemma add_lags_length: "length (add_lags (create_features s)) = length s"
  by (simp add: add_lags_def Let_def create_features_ys create_features_length shift_length)

lemma add_lags_nth:
  assumes "i < length s"
  shows "add_lags (create_features s) ! i =
    \<lparr>ts_ds = fst (s ! i), ts_y = snd (s ! i),
     ts_month = date_month (fst (s ! i)), ts_year = date_year (fst (s ! i)),
     ts_y_lag_1 = (if i < 1 then None else snd (s ! (i - 1))),
     ts_y_lag_2 = (if i < 2 then None else snd (s ! (i - 2))),
     ts_y_lag_3 = (if i < 3 then None else snd (s ! (i - 3)))\<rparr>"
proof -
  have sh: "shift k (map snd s) ! i = (if i < k then None else snd (s ! (i - k)))" for k
    using assms by (simp add: shift_nth)
  show ?thesis
    unfolding add_lags_def Let_def create_features_ys
    using assms
    by (simp add: create_features_length shift_length create_features_nth sh del: One_nat_def)
qed

lemma map_filter_from:
  "\<forall>i<length xs. f (xs ! i) = (if i < k then None else Some (g i))
     \<Longrightarrow> List.map_filter f xs = map g [k..<length xs]"
proof (induction xs rule: rev_induct)
  case Nil
  then show ?case by simp
next
  case (snoc x xs)
  have "\<forall>i<length xs. f (xs ! i) = (if i < k then None else Some (g i))"
  proof (intro allI impI)
    fix i assume "i < length xs"
    then show "f (xs ! i) = (if i < k then None else Some (g i))"
      using snoc.prems by (auto simp: nth_append split: if_splits dest!: spec [of _ i])
  qed
  then have ih: "List.map_filter f xs = map g [k..<length xs]" using snoc.IH by blast
  have fx: "f x = (if length xs < k then None else Some (g (length xs)))"
    using snoc.prems by (auto dest!: spec [of _ "length xs"])
  have app: "List.map_filter f (xs @ [x]) = List.map_filter f xs @ List.map_filter f [x]"
    by (simp add: List.map_filter_def)
  show ?case
  proof (cases "length xs < k")
    case True
    then show ?thesis using ih fx app by simp
  next
    case False
    then show ?thesis using ih fx app by simp
  qed
qed

lemma feature_builder_eq:
  assumes "\<forall>p \<in> set s. snd p \<noteq> None"
  shows "feature_builder s =
    map (\<lambda>i. \<lparr>fr_ds = fst (s ! i), fr_y = the (snd (s ! i)),
               fr_month = date_month (fst (s ! i)), fr_year = date_year (fst (s ! i)),
               fr_y_lag_1 = the (snd (s ! (i - 1))),
               fr_y_lag_2 = the (snd (s ! (i - 2))),
               fr_y_lag_3 = the (snd (s ! (i - 3)))\<rparr>) [3..<length s]"
proof -
  have some: "\<exists>v. snd (s ! j) = Some v" if "j < length s" for j
    using assms that by (metis nth_mem not_None_eq)
  have "\<forall>i<length (add_lags (create_features s)).
      dropna_row (add_lags (create_features s) ! i) =
      (if i < 3 then None else Some ((\<lambda>i. \<lparr>fr_ds = fst (s ! i), fr_y = the (snd (s ! i)),
               fr_month = date_month (fst (s ! i)), fr_year = date_year (fst (s ! i)),
               fr_y_lag_1 = the (snd (s ! (i - 1))),
               fr_y_lag_2 = the (snd (s ! (i - 2))),
               fr_y_lag_3 = the (snd (s ! (i - 3)))\<rparr>) i))"
  proof (intro allI impI)
    fix i assume "i < length (add_lags (create_features s))"
    then have i: "i < length s" by (simp add: add_lags_length)
    obtain v where v: "snd (s ! i) = Some v" using some [OF i] by blast
    show "dropna_row (add_lags (create_features s) ! i) =
      (if i < 3 then None else Some ((\<lambda>i. \<lparr>fr_ds = fst (s ! i), fr_y = the (snd (s ! i)),
               fr_month = date_month (fst (s ! i)), fr_year = date_year (fst (s ! i)),
               fr_y_lag_1 = the (snd (s ! (i - 1))),
               fr_y_lag_2 = the (snd (s ! (i - 2))),
               fr_y_lag_3 = the (snd (s ! (i - 3)))\<rparr>) i))"
    proof (cases "i < 3")
      case True
      then show ?thesis using i v
        by (simp add: add_lags_nth dropna_row_def split: option.splits)
    next
      case False
      then have lt: "i - 1 < length s" "i - 2 < length s" "i - 3 < length s" using i by auto
      obtain a where a: "snd (s ! (i - 1)) = Some a" using some [OF lt(1)] by blast
      obtain b where b: "snd (s ! (i - 2)) = Some b" using some [OF lt(2)] by blast
      obtain c where c: "snd (s ! (i - 3)) = Some c" using some [OF lt(3)] by blast
      have r: "add_lags (create_features s) ! i =
          \<lparr>ts_ds = fst (s ! i), ts_y = Some v,
           ts_month = date_month (fst (s ! i)), ts_year = date_year (fst (s ! i)),
           ts_y_lag_1 = Some a, ts_y_lag_2 = Some b, ts_y_lag_3 = Some c\<rparr>"
        using False a b c v by (simp add: add_lags_nth [OF i])
      show ?thesis using False a b c v unfolding r
        by (simp add: dropna_row_def)
    qed
  qed
  from map_filter_from [OF this] show ?thesis
    by (simp add: feature_builder_def dropna_def add_lags_length)
qed


text \<open>
  C5. For a series of length \<open>L\<close> without missing values the Feature Builder produces
  \<open>max(0, L - 3)\<close> rows; the row kept for position \<open>i\<close> of the series (\<open>3 \<le> i < L\<close>) is
  row \<open>i - 3\<close> of the result, it carries the date and value of position \<open>i\<close>, and its
  \<open>lag_k\<close> is the series value at position \<open>i - k\<close> for \<open>k\<close> = 1, 2, 3. So exactly the first
  three positions are dropped.
\<close>

theorem feature_builder_rows:
  assumes "\<forall>p \<in> set series. snd p \<noteq> None"
  shows "int (length (feature_builder series)) = max 0 (int (length series) - 3)
    \<and> (\<forall>i. 3 \<le> i \<and> i < length series \<longrightarrow>
          fr_ds (feature_builder series ! (i - 3)) = fst (series ! i)
        \<and> fr_month (feature_builder series ! (i - 3)) = date_month (fst (series ! i))
        \<and> fr_year (feature_builder series ! (i - 3)) = date_year (fst (series ! i))
        \<and> Some (fr_y (feature_builder series ! (i - 3))) = snd (series ! i)
        \<and> Some (fr_y_lag_1 (feature_builder series ! (i - 3))) = snd (series ! (i - 1))
        \<and> Some (fr_y_lag_2 (feature_builder series ! (i - 3))) = snd (series ! (i - 2))
        \<and> Some (fr_y_lag_3 (feature_builder series ! (i - 3))) = snd (series ! (i - 3)))"
proof (intro conjI allI impI)
  note eq = feature_builder_eq [OF assms]
  show "int (length (feature_builder series)) = max 0 (int (length series) - 3)"
    unfolding eq by simp
  fix i assume i: "3 \<le> i \<and> i < length series"
  then have n: "i - 3 < length [3..<length series]" and v: "[3..<length series] ! (i - 3) = i"
    by auto
  have some: "\<exists>v. snd (series ! j) = Some v" if "j < length series" for j
    using assms that by (metis nth_mem not_None_eq)
  have lt: "i < length series" "i - 1 < length series" "i - 2 < length series"
    "i - 3 < length series" using i by auto
  show "fr_ds (feature_builder series ! (i - 3)) = fst (series ! i)"
    unfolding eq using n v by simp
  show "fr_month (feature_builder series ! (i - 3)) = date_month (fst (series ! i))"
    unfolding eq using n v by simp
  show "fr_year (feature_builder series ! (i - 3)) = date_year (fst (series ! i))"
    unfolding eq using n v by simp
  show "Some (fr_y (feature_builder series ! (i - 3))) = snd (series ! i)"
    unfolding eq using n v some [OF lt(1)] by auto
  show "Some (fr_y_lag_1 (feature_builder series ! (i - 3))) = snd (series ! (i - 1))"
    unfolding eq using n v some [OF lt(2)] by auto
  show "Some (fr_y_lag_2 (feature_builder series ! (i - 3))) = snd (series ! (i - 2))"
    unfolding eq using n v some [OF lt(3)] by auto
  show "Some (fr_y_lag_3 (feature_builder series ! (i - 3))) = snd (series ! (i - 3))"
    unfolding eq using n v some [OF lt(4)] by auto
qed

theorem feature_builder_rows_witness:
  "length (feature_builder [((2023, 11, 1), Some 5), ((2023, 12, 1), Some 7),
       ((2024, 1, 1), Some 6), ((2024, 2, 1), Some 9), ((2024, 3, 1), Some 8)]) = 2
   \<and> fr_y_lag_1 (feature_builder [((2023, 11, 1), Some 5), ((2023, 12, 1), Some 7),
       ((2024, 1, 1), Some 6), ((2024, 2, 1), Some 9), ((2024, 3, 1), Some 8)] ! 1) = 9
   \<and> fr_y_lag_3 (feature_builder [((2023, 11, 1), Some 5), ((2023, 12, 1), Some 7),
       ((2024, 1, 1), Some 6), ((2024, 2, 1), Some 9), ((2024, 3, 1), Some 8)] ! 1) = 7"
proof -
  let ?s = "[((2023, 11, 1), Some 5), ((2023, 12, 1), Some 7), ((2024, 1, 1), Some 6),
       ((2024, 2, 1), Some 9), ((2024, 3, 1), Some 8)] :: (date \<times> real option) list"
  have h: "\<forall>p \<in> set ?s. snd p \<noteq> None" by simp
  from feature_builder_rows [OF h]
  have a: "int (length (feature_builder ?s)) = max 0 (int (length ?s) - 3)"
    and b: "3 \<le> (4::nat) \<and> 4 < length ?s \<longrightarrow>
        Some (fr_y_lag_1 (feature_builder ?s ! (4 - 3))) = snd (?s ! (4 - 1))
      \<and> Some (fr_y_lag_3 (feature_builder ?s ! (4 - 3))) = snd (?s ! (4 - 3))"
    by blast+
  from a have "length (feature_builder ?s) = 2" by simp
  moreover from b have "fr_y_lag_1 (feature_builder ?s ! 1) = 9" by simp
  moreover from b have "fr_y_lag_3 (feature_builder ?s ! 1) = 7" by simp
  ultimately show ?thesis by blast
qed

text \<open>
  C1 does not hold of the code. From the series 1, 2, 3, 4 (January to April 2024) the only
  row left after lag construction is the row of April, with lags 3, 2, 1. The recursion is
  seeded with the lag columns of that last row, so the first future point (May 2024) is
  predicted from \<open>lag1 = 3\<close>, \<open>lag2 = 2\<close>, \<open>lag3 = 1\<close>: the values at positions \<open>L - 2\<close>,
  \<open>L - 3\<close>, \<open>L - 4\<close>. The most recent value 4 is not among them. A regressor that returns
  its \<open>lag1\<close> input makes the seed visible in the forecast.
\<close>

theorem seed_lags_last_row:
  "feature_builder [((2024, 1, 1), Some 1), ((2024, 2, 1), Some 2), ((2024, 3, 1), Some 3),
       ((2024, 4, 1), Some 4)]
     = [\<lparr>fr_ds = (2024, 4, 1), fr_y = 4, fr_month = 4, fr_year = 2024,
         fr_y_lag_1 = 3, fr_y_lag_2 = 2, fr_y_lag_3 = 1\<rparr>]
   \<and> seed_lags (last (feature_builder [((2024, 1, 1), Some 1), ((2024, 2, 1), Some 2),
       ((2024, 3, 1), Some 3), ((2024, 4, 1), Some 4)])) = (3, 2, 1)
   \<and> forecast_engine (\<lambda>(m, yr, l1, l2, l3). l1)
       (feature_builder [((2024, 1, 1), Some 1), ((2024, 2, 1), Some 2), ((2024, 3, 1), Some 3),
         ((2024, 4, 1), Some 4)]) 1 = Inr [((2024, 5, 1), 3)]"
  by code_simp

lemma month_begin_next:
  assumes "month_start d"
  shows "month_start (month_begin d) \<and> month_index (month_begin d) = month_index d + 1"
  using assms
  by (auto simp: month_start_def month_begin_def month_index_def date_day_def date_month_def
      date_year_def)

lemma month_starts_props:
  "month_start d \<Longrightarrow> length (month_starts d n) = n \<and>
     (\<forall>i<n. month_start (month_starts d n ! i)
            \<and> month_index (month_starts d n ! i) = month_index d + i)"
proof (induction n arbitrary: d)
  case 0
  then show ?case by simp
next
  case (Suc n)
  note nx = month_begin_next [OF Suc.prems]
  note ih = Suc.IH [of "month_begin d", OF nx [THEN conjunct1]]
  show ?case
  proof (intro conjI allI impI)
    show "length (month_starts d (Suc n)) = Suc n" using ih by simp
    fix i assume "i < Suc n"
    then show "month_start (month_starts d (Suc n) ! i)"
      using ih Suc.prems by (cases i) auto
    show "month_index (month_starts d (Suc n) ! i) = month_index d + i"
      using ih nx \<open>i < Suc n\<close> by (cases i) auto
  qed
qed

lemma predict_loop_dates: "map fst (predict_loop m dates lags) = dates"
proof (induction dates arbitrary: lags)
  case Nil
  then show ?case by simp
next
  case (Cons d dates)
  obtain l1 l2 l3 where "lags = (l1, l2, l3)" by (cases lags) auto
  then show ?case using Cons.IH by (simp add: Let_def)
qed

lemma engine_dates:
  assumes "ts \<noteq> []" and "\<forall>r \<in> set ts. month_start (fr_ds r)" and "0 < n"
  shows "\<exists>pts. forecast_engine m ts n = Inr pts \<and> length pts = nat n
    \<and> (\<forall>i < nat n. month_start (fst (pts ! i))
          \<and> month_index (fst (pts ! i)) = month_index (Max (set (map fr_ds ts))) + 1 + i)"
proof -
  let ?mx = "Max (set (map fr_ds ts))"
  let ?dates = "month_starts (month_begin ?mx) (nat n)"
  let ?pts = "predict_loop m ?dates (seed_lags (last ts))"
  have "?mx \<in> set (map fr_ds ts)" using assms(1) by (intro Max_in) auto
  then have "month_start ?mx" using assms(2) by auto
  note nx = month_begin_next [OF this]
  note ms = month_starts_props [OF nx [THEN conjunct1], of "nat n"]
  have e: "forecast_engine m ts n = Inr ?pts"
    using assms(1,3) by (simp add: forecast_engine_def date_range_def Let_def)
  have d: "map fst ?pts = ?dates" by (rule predict_loop_dates)
  then have len: "length ?pts = nat n" using ms by (metis length_map)
  have "\<forall>i < nat n. month_start (fst (?pts ! i))
          \<and> month_index (fst (?pts ! i)) = month_index ?mx + 1 + i"
  proof (intro allI impI)
    fix i assume i: "i < nat n"
    then have "fst (?pts ! i) = ?dates ! i" using d len by (metis nth_map)
    then show "month_start (fst (?pts ! i))
          \<and> month_index (fst (?pts ! i)) = month_index ?mx + 1 + i"
      using ms nx i by simp
  qed
  then show ?thesis using e len by blast
qed

lemma set_map_filter: "set (List.map_filter f xs) = {y. \<exists>x \<in> set xs. f x = Some y}"
  by (induction xs) (auto split: option.splits)

lemma dropna_row_ds: "dropna_row x = Some fr \<Longrightarrow> fr_ds fr = ts_ds x"
  by (auto simp: dropna_row_def split: option.splits)

lemma feature_builder_dates_subset:
  "set (map fr_ds (feature_builder s)) \<subseteq> set (map fst s)"
proof
  fix d assume "d \<in> set (map fr_ds (feature_builder s))"
  then obtain fr where fr: "fr \<in> set (feature_builder s)" and d: "d = fr_ds fr" by auto
  then obtain x where x: "x \<in> set (add_lags (create_features s))" and dx: "dropna_row x = Some fr"
    unfolding feature_builder_def dropna_def set_map_filter by blast
  from x obtain i where i: "i < length (add_lags (create_features s))"
    and xi: "add_lags (create_features s) ! i = x"
    unfolding in_set_conv_nth by blast
  have il: "i < length s" using i by (simp add: add_lags_length)
  have "ts_ds x = fst (s ! i)" using add_lags_nth [OF il] xi by simp
  then have "d = fst (s ! i)" using d dropna_row_ds [OF dx] by simp
  then show "d \<in> set (map fst s)" using il by simp
qed

lemma feature_builder_last:
  assumes len: "4 \<le> length s"
    and last4: "\<forall>i<4. snd (s ! (length s - 1 - i)) \<noteq> None"
  shows "fst (s ! (length s - 1)) \<in> set (map fr_ds (feature_builder s))"
proof -
  let ?L = "length s"
  have il: "?L - 1 < ?L" using len by simp
  have n3: "\<not> ?L - 1 < 1" "\<not> ?L - 1 < 2" "\<not> ?L - 1 < 3" using len by simp_all
  obtain v where v: "snd (s ! (?L - 1)) = Some v" using last4 [rule_format, of 0] by auto
  obtain a where a: "snd (s ! (?L - 1 - 1)) = Some a" using last4 [rule_format, of 1] by auto
  obtain b where b: "snd (s ! (?L - 1 - 2)) = Some b" using last4 [rule_format, of 2] by auto
  obtain c where c: "snd (s ! (?L - 1 - 3)) = Some c" using last4 [rule_format, of 3] by auto
  let ?x = "add_lags (create_features s) ! (?L - 1)"
  have r: "?x = \<lparr>ts_ds = fst (s ! (?L - 1)), ts_y = Some v,
           ts_month = date_month (fst (s ! (?L - 1))), ts_year = date_year (fst (s ! (?L - 1))),
           ts_y_lag_1 = Some a, ts_y_lag_2 = Some b, ts_y_lag_3 = Some c\<rparr>"
    unfolding add_lags_nth [OF il] using n3 v a b c by simp
  have "\<exists>fr. dropna_row ?x = Some fr" unfolding r by (simp add: dropna_row_def)
  then obtain fr where fr: "dropna_row ?x = Some fr" by blast
  have "?x \<in> set (add_lags (create_features s))"
    using il by (simp add: add_lags_length)
  then have "fr \<in> set (feature_builder s)"
    unfolding feature_builder_def dropna_def set_map_filter using fr by blast
  moreover have "fr_ds fr = fst (s ! (?L - 1))" using dropna_row_ds [OF fr] r by simp
  ultimately show ?thesis by force
qed

lemma feature_builder_short:
  assumes "length s < 4"
  shows "feature_builder s = []"
proof -
  have "feature_builder s = []"
  proof (rule ccontr)
    assume "feature_builder s \<noteq> []"
    then obtain fr where "fr \<in> set (feature_builder s)"
      by (cases "feature_builder s") auto
    then obtain x where x: "x \<in> set (add_lags (create_features s))" and dx: "dropna_row x = Some fr"
      unfolding feature_builder_def dropna_def set_map_filter by blast
    from x obtain i where i: "i < length (add_lags (create_features s))"
      and xi: "add_lags (create_features s) ! i = x"
      unfolding in_set_conv_nth by blast
    have il: "i < length s" using i by (simp add: add_lags_length)
    then have "i < 3" using assms by simp
    then have "ts_y_lag_3 x = None" using add_lags_nth [OF il] xi by simp
    then show False using dx by (simp add: dropna_row_def split: option.splits)
  qed
  then show ?thesis .
qed

lemma feature_builder_max:
  assumes srt: "sorted_wrt (<) (map fst s)" and len: "4 \<le> length s"
    and last4: "\<forall>i<4. snd (s ! (length s - 1 - i)) \<noteq> None"
  shows "feature_builder s \<noteq> []"
    and "Max (set (map fr_ds (feature_builder s))) = Max (set (map fst s))"
proof -
  let ?l = "fst (s ! (length s - 1))"
  note sub = feature_builder_dates_subset [of s]
  note lin = feature_builder_last [OF len last4]
  show "feature_builder s \<noteq> []" using lin by auto
  have srt': "sorted (map fst s)" using srt by (simp add: strict_sorted_iff)
  have top: "d \<le> ?l" if "d \<in> set (map fst s)" for d
  proof -
    from that obtain i where i: "i < length (map fst s)" and d: "map fst s ! i = d"
      unfolding in_set_conv_nth by blast
    have j: "length s - 1 < length (map fst s)" using len by simp
    have ij: "i \<le> length s - 1" using i by simp
    have "map fst s ! i \<le> map fst s ! (length s - 1)"
      by (rule sorted_nth_mono [OF srt' ij j])
    moreover have "map fst s ! (length s - 1) = ?l" using j by (simp only: nth_map length_map)
    ultimately show ?thesis using d by simp
  qed
  have fin1: "finite (set (map fst s))" and fin2: "finite (set (map fr_ds (feature_builder s)))"
    by simp_all
  have lin1: "?l \<in> set (map fst s)" using lin sub by blast
  have m1: "Max (set (map fst s)) = ?l"
    by (rule Max_eqI [OF fin1 top lin1])
  have top2: "d \<le> ?l" if "d \<in> set (map fr_ds (feature_builder s))" for d
    using that sub top by blast
  have m2: "Max (set (map fr_ds (feature_builder s))) = ?l"
    by (rule Max_eqI [OF fin2 top2 lin])
  show "Max (set (map fr_ds (feature_builder s))) = Max (set (map fst s))"
    using m1 m2 by simp
qed

text \<open>
  C2, as amended. Take a historical series with strictly increasing calendar-month-start
  dates, as the Series Extractor returns them, and a positive horizon \<open>n\<close>. When the series
  has at least four points and its four most recent values are present (so in particular
  when it has at least four points and no missing value), the Forecast Engine returns
  exactly \<open>n\<close> points for every fitted regressor; point \<open>i\<close> (from 0) lies on a month start,
  \<open>1 + i\<close> calendar months after the greatest historical date: the dates are consecutive
  month starts and the first is one month after the maximum. A series of fewer than four
  points leaves an empty training frame, and the engine returns no point: \<open>ts.iloc[-1]\<close>
  raises. In terms of the training frame \<open>ts\<close> that the engine receives: whenever it is not
  empty and its dates are month starts, the \<open>n\<close> points follow its greatest date.
\<close>

theorem forecast_engine_dates:
  assumes "0 < n"
  shows "(4 \<le> length series \<and> sorted_wrt (<) (map fst series)
        \<and> (\<forall>p \<in> set series. month_start (fst p))
        \<and> (\<forall>i<4. snd (series ! (length series - 1 - i)) \<noteq> None)
      \<longrightarrow> (\<exists>pts. forecast_engine m (feature_builder series) n = Inr pts \<and> length pts = nat n
            \<and> (\<forall>i < nat n. month_start (fst (pts ! i))
                  \<and> month_index (fst (pts ! i))
                      = month_index (Max (set (map fst series))) + 1 + i)))
    \<and> (length series < 4
      \<longrightarrow> forecast_engine m (feature_builder series) n = Inl IndexError)
    \<and> (ts \<noteq> [] \<and> (\<forall>r \<in> set ts. month_start (fr_ds r))
      \<longrightarrow> (\<exists>pts. forecast_engine m ts n = Inr pts \<and> length pts = nat n
            \<and> (\<forall>i < nat n. month_start (fst (pts ! i))
                  \<and> month_index (fst (pts ! i))
                      = month_index (Max (set (map fr_ds ts))) + 1 + i)))"
proof (intro conjI impI)
  assume a: "4 \<le> length series \<and> sorted_wrt (<) (map fst series)
        \<and> (\<forall>p \<in> set series. month_start (fst p))
        \<and> (\<forall>i<4. snd (series ! (length series - 1 - i)) \<noteq> None)"
  then have srt: "sorted_wrt (<) (map fst series)" and len: "4 \<le> length series"
    and last4: "\<forall>i<4. snd (series ! (length series - 1 - i)) \<noteq> None" by auto
  note fm = feature_builder_max [OF srt len last4]
  have ms: "\<forall>r \<in> set (feature_builder series). month_start (fr_ds r)"
  proof
    fix r assume "r \<in> set (feature_builder series)"
    then have "fr_ds r \<in> set (map fst series)"
      using feature_builder_dates_subset [of series] by auto
    then show "month_start (fr_ds r)" using a by auto
  qed
  show "\<exists>pts. forecast_engine m (feature_builder series) n = Inr pts \<and> length pts = nat n
            \<and> (\<forall>i < nat n. month_start (fst (pts ! i))
                  \<and> month_index (fst (pts ! i))
                      = month_index (Max (set (map fst series))) + 1 + i)"
    using engine_dates [OF fm(1) ms assms, of m] unfolding fm(2) .
next
  assume "length series < 4"
  then show "forecast_engine m (feature_builder series) n = Inl IndexError"
    by (simp add: feature_builder_short forecast_engine_def)
next
  assume "ts \<noteq> [] \<and> (\<forall>r \<in> set ts. month_start (fr_ds r))"
  then show "\<exists>pts. forecast_engine m ts n = Inr pts \<and> length pts = nat n
            \<and> (\<forall>i < nat n. month_start (fst (pts ! i))
                  \<and> month_index (fst (pts ! i))
                      = month_index (Max (set (map fr_ds ts))) + 1 + i)"
    using engine_dates [of ts n m] assms by blast
qed

theorem forecast_engine_dates_witness:
  "(\<exists>pts. forecast_engine (\<lambda>x. 0)
       (feature_builder [((2023, 10, 1), None), ((2023, 11, 1), Some 5), ((2023, 12, 1), Some 7),
          ((2024, 1, 1), Some 6), ((2024, 2, 1), Some 9)]) 1 = Inr pts
     \<and> length pts = 1
     \<and> month_start (fst (pts ! 0)) \<and> month_index (fst (pts ! 0)) = month_index (2024, 3, 1))
   \<and> forecast_engine (\<lambda>x. 0)
       (feature_builder [((2024, 1, 1), Some 10), ((2024, 2, 1), Some 12), ((2024, 3, 1), Some 11)])
       1 = Inl IndexError
   \<and> (\<exists>pts. forecast_engine (\<lambda>x. 0)
       [\<lparr>fr_ds = (2024, 11, 1), fr_y = 4, fr_month = 11, fr_year = 2024,
          fr_y_lag_1 = 3, fr_y_lag_2 = 2, fr_y_lag_3 = 1\<rparr>,
        \<lparr>fr_ds = (2024, 12, 1), fr_y = 5, fr_month = 12, fr_year = 2024,
          fr_y_lag_1 = 4, fr_y_lag_2 = 3, fr_y_lag_3 = 2\<rparr>] 2 = Inr pts
     \<and> length pts = 2
     \<and> month_start (fst (pts ! 0)) \<and> month_index (fst (pts ! 0)) = month_index (2025, 1, 1)
     \<and> month_start (fst (pts ! 1)) \<and> month_index (fst (pts ! 1)) = month_index (2025, 2, 1))"
proof -
  let ?ts = "[\<lparr>fr_ds = (2024, 11, 1), fr_y = 4, fr_month = 11, fr_year = 2024,
          fr_y_lag_1 = 3, fr_y_lag_2 = 2, fr_y_lag_3 = 1\<rparr>,
        \<lparr>fr_ds = (2024, 12, 1), fr_y = 5, fr_month = 12, fr_year = 2024,
          fr_y_lag_1 = 4, fr_y_lag_2 = 3, fr_y_lag_3 = 2\<rparr>]"
  let ?s = "[((2023, 10, 1), None), ((2023, 11, 1), Some 5), ((2023, 12, 1), Some 7),
          ((2024, 1, 1), Some 6), ((2024, 2, 1), Some 9)] :: (date \<times> real option) list"
  let ?u = "[((2024, 1, 1), Some 10), ((2024, 2, 1), Some 12), ((2024, 3, 1), Some 11)]
          :: (date \<times> real option) list"
  have n2: "(0::int) < 2" and n1: "(0::int) < 1" by simp_all
  have "list_all (\<lambda>i. snd (?s ! (length ?s - 1 - i)) \<noteq> None) [0..<4]" by code_simp
  then have l4: "\<forall>i<4. snd (?s ! (length ?s - 1 - i)) \<noteq> None" by (rule all_less_list)
  have h2: "4 \<le> length ?s \<and> sorted_wrt (<) (map fst ?s)
      \<and> (\<forall>p \<in> set ?s. month_start (fst p))
      \<and> (\<forall>i<4. snd (?s ! (length ?s - 1 - i)) \<noteq> None)"
    using l4 by (simp add: month_start_def date_day_def date_month_def)
  have mx2: "Max (set (map fst ?s)) = (2024, 2, 1)" by simp
  obtain qts where q: "forecast_engine (\<lambda>x. 0) (feature_builder ?s) 1 = Inr qts"
    "length qts = nat 1"
    "\<forall>i < nat 1. month_start (fst (qts ! i))
        \<and> month_index (fst (qts ! i)) = month_index (Max (set (map fst ?s))) + 1 + i"
    using forecast_engine_dates [OF n1, where series = ?s and m = "\<lambda>x. 0",
        THEN conjunct1, THEN mp, OF h2] by blast
  have j0: "month_start (fst (qts ! 0)) \<and> month_index (fst (qts ! 0)) = month_index (2024, 3, 1)"
    using q(3) unfolding mx2 by (simp add: month_index_def date_year_def date_month_def)
  have first: "\<exists>pts. forecast_engine (\<lambda>x. 0) (feature_builder ?s) 1 = Inr pts
     \<and> length pts = 1
     \<and> month_start (fst (pts ! 0)) \<and> month_index (fst (pts ! 0)) = month_index (2024, 3, 1)"
    using q(1,2) j0 by (intro exI [of _ qts]) simp
  have h3: "length ?u < 4" by simp
  have second: "forecast_engine (\<lambda>x. 0) (feature_builder ?u) 1 = Inl IndexError"
    by (rule forecast_engine_dates [OF n1, where series = ?u and m = "\<lambda>x. 0",
        THEN conjunct2, THEN conjunct1, THEN mp, OF h3])
  have h1: "?ts \<noteq> [] \<and> (\<forall>r \<in> set ?ts. month_start (fr_ds r))"
    by (simp add: month_start_def date_day_def date_month_def)
  have mx: "Max (set (map fr_ds ?ts)) = (2024, 12, 1)" by simp
  obtain pts where p: "forecast_engine (\<lambda>x. 0) ?ts 2 = Inr pts" "length pts = nat 2"
    "\<forall>i < nat 2. month_start (fst (pts ! i))
        \<and> month_index (fst (pts ! i)) = month_index (Max (set (map fr_ds ?ts))) + 1 + i"
    using forecast_engine_dates [OF n2, where ts = ?ts and m = "\<lambda>x. 0",
        THEN conjunct2, THEN conjunct2, THEN mp, OF h1] by blast
  have i0: "month_start (fst (pts ! 0)) \<and> month_index (fst (pts ! 0)) = month_index (2025, 1, 1)"
    using p(3) unfolding mx by (simp add: month_index_def date_year_def date_month_def)
  have i1: "month_start (fst (pts ! 1)) \<and> month_index (fst (pts ! 1)) = month_index (2025, 2, 1)"
    using p(3) unfolding mx by (simp add: month_index_def date_year_def date_month_def)
  have third: "\<exists>pts. forecast_engine (\<lambda>x. 0) ?ts 2 = Inr pts \<and> length pts = 2
     \<and> month_start (fst (pts ! 0)) \<and> month_index (fst (pts ! 0)) = month_index (2025, 1, 1)
     \<and> month_start (fst (pts ! 1)) \<and> month_index (fst (pts ! 1)) = month_index (2025, 2, 1)"
    using p(1,2) i0 i1 by (intro exI [of _ pts]) simp
  show ?thesis using first second third by (intro conjI)
qed

text \<open>
  C2, as stated, fails. The series of January and February 2024 with the values 10 and 12 is
  not empty and its dates are month starts, yet for the horizon 3 the engine returns no
  point: no row is left after lag construction and \<open>ts.iloc[-1]\<close> raises, so that the
  forecast returns \<open>Forecast failed\<close>. And for the series January to May 2024 whose value of
  May is missing, the only point of horizon 1 is dated May 2024, the maximum historical date
  itself and not one month after it.
\<close>

theorem forecast_engine_short_series_counterexample:
  "month_start (2024, 1, 1) \<and> month_start (2024, 2, 1)
   \<and> forecast_engine (\<lambda>x. 0)
        (feature_builder [((2024, 1, 1), Some 10), ((2024, 2, 1), Some 12)]) 3 = Inl IndexError
   \<and> forecast_kpi (archive_env [])
        \<lparr>columns = [''Country'', ''Technology'', ''Zone'', ''KPI'', value_col, ''Date''],
         rows = [(hd (rows (one_row_frame 10)))\<lparr>Date := (2024, 1, 1)\<rparr>,
                 (hd (rows (one_row_frame 12)))\<lparr>Date := (2024, 2, 1)\<rparr>]\<rparr>
        ''France'' ''4G'' ''ZoneA'' ''Availability'' 3
      = (None, None, Some (Forecast_failed IndexError))
   \<and> forecast_engine (\<lambda>x. 0)
        (feature_builder [((2024, 1, 1), Some 1), ((2024, 2, 1), Some 2), ((2024, 3, 1), Some 3),
           ((2024, 4, 1), Some 4), ((2024, 5, 1), None)]) 1 = Inr [((2024, 5, 1), 0)]"
  by code_simp

section \<open>Properties of the Series Extractor, the forecast and the pipeline\<close>

lemma forecast_kpi_message:
  "series_extractor df country tech zone kpi = Inr (Inl msg)
     \<Longrightarrow> forecast_kpi env df country tech zone kpi n = (None, None, Some msg)"
  by (simp add: forecast_kpi_def forecast_body_def)

lemma forecast_kpi_raise:
  "series_extractor df country tech zone kpi = Inl e
     \<Longrightarrow> forecast_kpi env df country tech zone kpi n = (None, None, Some (Forecast_failed e))"
  by (simp add: forecast_kpi_def forecast_body_def)

lemma series_extractor_empty:
  "filter_rows df country tech zone kpi = Inr []
     \<Longrightarrow> series_extractor df country tech zone kpi
           = Inr (Inl (Msg ''No data available for the selected inputs''))"
  by (simp add: series_extractor_def)

lemma series_extractor_missing_column:
  "filter_rows df country tech zone kpi = Inr filtered \<Longrightarrow> filtered \<noteq> []
     \<Longrightarrow> value_col \<notin> set (columns df)
     \<Longrightarrow> series_extractor df country tech zone kpi
           = Inr (Inl (Msg (''Expected column '' @ [CHR 0x27] @ ''Actual Value MAPS Networks''
                            @ [CHR 0x27] @ '' not found'')))"
  by (simp add: series_extractor_def value_col_def)

lemma series_extractor_message_cases:
  assumes "series_extractor df country tech zone kpi = Inr (Inl msg)"
  shows "(filter_rows df country tech zone kpi = Inr []
            \<and> msg = Msg ''No data available for the selected inputs'')
       \<or> (\<exists>filtered. filter_rows df country tech zone kpi = Inr filtered \<and> filtered \<noteq> []
            \<and> value_col \<notin> set (columns df)
            \<and> msg = Msg (''Expected column '' @ [CHR 0x27] @ value_col @ [CHR 0x27] @ '' not found''))"
  using assms
  by (auto simp: series_extractor_def split: sum.splits if_splits)

lemma pipeline_error_passes:
  assumes "aggregate_records env zip_buffer = Inr (Inr df)"
    and "forecast_kpi env df country tech zone kpi n = (None, None, Some msg)"
    and "truthy (Some msg)"
  shows "run_forecast_pipeline env zip_buffer country tech zone kpi n = (None, None, Some msg)"
  using assms by (simp add: run_forecast_pipeline_def pipeline_body_def)

text \<open>
  C7. Whenever the filter on the four dimensions (equality of strings, case-sensitive)
  evaluates to zero rows, the forecast returns the message
  \<open>No data available for the selected inputs\<close> with no chart and no summary. Whenever it
  evaluates to at least one row and the frame has no column \<open>Actual Value MAPS Networks\<close>,
  the forecast returns the message \<open>Expected column 'Actual Value MAPS Networks' not found\<close>,
  which names the column, with no chart and no summary. The pipeline hands both results
  on unchanged. (The filter evaluates when the four dimension columns exist; otherwise
  reading the column raises.)
\<close>

theorem extractor_error_messages:
  "(filter_rows df country tech zone kpi = Inr []
      \<longrightarrow> forecast_kpi env df country tech zone kpi n
            = (None, None, Some (Msg ''No data available for the selected inputs''))
        \<and> (aggregate_records env zip_buffer = Inr (Inr df)
            \<longrightarrow> run_forecast_pipeline env zip_buffer country tech zone kpi n
                  = (None, None, Some (Msg ''No data available for the selected inputs''))))
   \<and> (filter_rows df country tech zone kpi = Inr filtered \<and> filtered \<noteq> []
        \<and> ''Actual Value MAPS Networks'' \<notin> set (columns df)
      \<longrightarrow> forecast_kpi env df country tech zone kpi n
            = (None, None, Some (Msg (''Expected column '' @ [CHR 0x27]
                 @ ''Actual Value MAPS Networks'' @ [CHR 0x27] @ '' not found'')))
        \<and> (aggregate_records env zip_buffer = Inr (Inr df)
            \<longrightarrow> run_forecast_pipeline env zip_buffer country tech zone kpi n
                  = (None, None, Some (Msg (''Expected column '' @ [CHR 0x27]
                       @ ''Actual Value MAPS Networks'' @ [CHR 0x27] @ '' not found'')))))"
proof (intro conjI impI)
  assume a: "filter_rows df country tech zone kpi = Inr []"
  show k: "forecast_kpi env df country tech zone kpi n
          = (None, None, Some (Msg ''No data available for the selected inputs''))"
    by (rule forecast_kpi_message [OF series_extractor_empty [OF a]])
  assume "aggregate_records env zip_buffer = Inr (Inr df)"
  then show "run_forecast_pipeline env zip_buffer country tech zone kpi n
          = (None, None, Some (Msg ''No data available for the selected inputs''))"
    using k by (intro pipeline_error_passes) simp_all
next
  assume a: "filter_rows df country tech zone kpi = Inr filtered \<and> filtered \<noteq> []
        \<and> ''Actual Value MAPS Networks'' \<notin> set (columns df)"
  then have v: "value_col \<notin> set (columns df)" by (simp add: value_col_def)
  show k: "forecast_kpi env df country tech zone kpi n
            = (None, None, Some (Msg (''Expected column '' @ [CHR 0x27]
                 @ ''Actual Value MAPS Networks'' @ [CHR 0x27] @ '' not found'')))"
  proof (rule forecast_kpi_message)
    show "series_extractor df country tech zone kpi
           = Inr (Inl (Msg (''Expected column '' @ [CHR 0x27] @ ''Actual Value MAPS Networks''
                            @ [CHR 0x27] @ '' not found'')))"
      using a v series_extractor_missing_column [of df country tech zone kpi filtered] by blast
  qed
  assume "aggregate_records env zip_buffer = Inr (Inr df)"
  then show "run_forecast_pipeline env zip_buffer country tech zone kpi n
            = (None, None, Some (Msg (''Expected column '' @ [CHR 0x27]
                 @ ''Actual Value MAPS Networks'' @ [CHR 0x27] @ '' not found'')))"
    using k by (intro pipeline_error_passes) simp_all
qed

theorem extractor_error_messages_witness:
  "run_forecast_pipeline (archive_env [(''Jan2024.xlsx'', 10)]) ''PK'' ''Spain'' ''4G'' ''ZoneA''
       ''Availability'' 3
     = (None, None, Some (Msg ''No data available for the selected inputs''))
   \<and> run_forecast_pipeline
       ((archive_env [(''Jan2024.xlsx'', 10)])
          \<lparr>read_excel := \<lambda>path. Inr \<lparr>sheet_labels = map Str [''Country'', ''Technology'', ''Zone'', ''KPI''],
                                      sheet_rows = rows (one_row_frame 10)\<rparr>\<rparr>)
       ''PK'' ''France'' ''4G'' ''ZoneA'' ''Availability'' 3
     = (None, None, Some (Msg (''Expected column '' @ [CHR 0x27] @ ''Actual Value MAPS Networks''
                               @ [CHR 0x27] @ '' not found'')))"
proof -
  let ?r = "\<lambda>v. \<lparr>Country = Str ''France'', Technology = Str ''4G'', Zone = Str ''ZoneA'',
               KPI = Str ''Availability'', Date = (2024, 1, 1), Value = v\<rparr>"
  let ?e1 = "archive_env [(''Jan2024.xlsx'', 10)]"
  let ?d1 = "\<lparr>columns = [''Country'', ''Technology'', ''Zone'', ''KPI'',
                 ''Actual Value MAPS Networks'', ''Date'', ''source_file''],
              rows = [?r (Num 10)]\<rparr>"
  let ?e2 = "?e1\<lparr>read_excel := \<lambda>path. Inr \<lparr>sheet_labels = map Str [''Country'', ''Technology'', ''Zone'', ''KPI''],
                                      sheet_rows = rows (one_row_frame 10)\<rparr>\<rparr>"
  let ?d2 = "\<lparr>columns = [''Country'', ''Technology'', ''Zone'', ''KPI'', ''Date'', ''source_file''],
              rows = [?r NaN]\<rparr>"
  have a1: "aggregate_records ?e1 ''PK'' = Inr (Inr ?d1)" by code_simp
  have f1: "filter_rows ?d1 ''Spain'' ''4G'' ''ZoneA'' ''Availability'' = Inr []" by code_simp
  have a2: "aggregate_records ?e2 ''PK'' = Inr (Inr ?d2)" by code_simp
  have f2: "filter_rows ?d2 ''France'' ''4G'' ''ZoneA'' ''Availability'' = Inr [?r NaN]
      \<and> [?r NaN] \<noteq> [] \<and> ''Actual Value MAPS Networks'' \<notin> set (columns ?d2)"
    by code_simp
  show ?thesis
    using extractor_error_messages [of ?d1 "''Spain''" "''4G''" "''ZoneA''" "''Availability''"
        ?e1 3 "''PK''"] a1 f1
      extractor_error_messages [of ?d2 "''France''" "''4G''" "''ZoneA''" "''Availability''"
        ?e2 3 "''PK''" "[?r NaN]"] a2 f2
    by blast
qed

text \<open>
  C10. When the filter yields zero rows and the value column is absent as well, the
  returned error is \<open>No data available for the selected inputs\<close>: the test for an empty
  filter comes first. So the message about the missing column is returned only when at
  least one row matches the filter.
\<close>

theorem empty_filter_before_missing_column:
  "(filter_rows df country tech zone kpi = Inr [] \<and> value_col \<notin> set (columns df)
      \<longrightarrow> forecast_kpi env df country tech zone kpi n
            = (None, None, Some (Msg ''No data available for the selected inputs'')))
   \<and> (forecast_kpi env df country tech zone kpi n
         = (None, None, Some (Msg (''Expected column '' @ [CHR 0x27] @ value_col @ [CHR 0x27]
                                   @ '' not found'')))
      \<longrightarrow> (\<exists>filtered. filter_rows df country tech zone kpi = Inr filtered \<and> filtered \<noteq> []))"
proof (intro conjI impI)
  assume "filter_rows df country tech zone kpi = Inr [] \<and> value_col \<notin> set (columns df)"
  then show "forecast_kpi env df country tech zone kpi n
            = (None, None, Some (Msg ''No data available for the selected inputs''))"
    using forecast_kpi_message [OF series_extractor_empty] by blast
next
  let ?m = "Msg (''Expected column '' @ [CHR 0x27] @ value_col @ [CHR 0x27] @ '' not found'')"
  assume a: "forecast_kpi env df country tech zone kpi n = (None, None, Some ?m)"
  have "series_extractor df country tech zone kpi = Inr (Inl ?m)"
  proof (cases "series_extractor df country tech zone kpi")
    case (Inl e)
    then show ?thesis using a forecast_kpi_raise [OF Inl, of env n] by simp
  next
    case (Inr r)
    show ?thesis
    proof (cases r)
      case (Inl msg)
      then show ?thesis using a Inr forecast_kpi_message [of df country tech zone kpi msg env n]
        by simp
    next
      case (Inr series)
      then have "snd (snd (forecast_kpi env df country tech zone kpi n)) = None
          \<or> (\<exists>e. snd (snd (forecast_kpi env df country tech zone kpi n)) = Some (Forecast_failed e))"
        using \<open>series_extractor df country tech zone kpi = Inr r\<close>
        by (auto simp: forecast_kpi_def forecast_body_def Let_def split: sum.splits)
      then show ?thesis using a by auto
    qed
  qed
  from series_extractor_message_cases [OF this]
  show "\<exists>filtered. filter_rows df country tech zone kpi = Inr filtered \<and> filtered \<noteq> []"
    by auto
qed

theorem empty_filter_before_missing_column_witness:
  "forecast_kpi (archive_env [])
       \<lparr>columns = [''Country'', ''Technology'', ''Zone'', ''KPI'', ''Date''],
        rows = rows (one_row_frame 10)\<rparr> ''Spain'' ''4G'' ''ZoneA'' ''Availability'' 3
     = (None, None, Some (Msg ''No data available for the selected inputs''))
   \<and> (\<exists>filtered. filter_rows \<lparr>columns = [''Country'', ''Technology'', ''Zone'', ''KPI'', ''Date''],
                     rows = rows (one_row_frame 10)\<rparr> ''France'' ''4G'' ''ZoneA'' ''Availability''
                   = Inr filtered \<and> filtered \<noteq> [])"
proof -
  let ?d = "\<lparr>columns = [''Country'', ''Technology'', ''Zone'', ''KPI'', ''Date''],
        rows = rows (one_row_frame 10)\<rparr>"
  let ?e = "archive_env []"
  have h1: "filter_rows ?d ''Spain'' ''4G'' ''ZoneA'' ''Availability'' = Inr []
      \<and> value_col \<notin> set (columns ?d)"
    by code_simp
  have h2: "forecast_kpi ?e ?d ''France'' ''4G'' ''ZoneA'' ''Availability'' 3
      = (None, None, Some (Msg (''Expected column '' @ [CHR 0x27] @ value_col @ [CHR 0x27]
                                   @ '' not found'')))"
    by code_simp
  show ?thesis
    using empty_filter_before_missing_column [of ?d "''Spain''" "''4G''" "''ZoneA''"
        "''Availability''" ?e 3] h1
      empty_filter_before_missing_column [of ?d "''France''" "''4G''" "''ZoneA''"
        "''Availability''" ?e 3] h2
    by blast
qed


lemma numeric_entries_group:
  "[x. Num x \<leftarrow> [Value r. r \<leftarrow> rs, Date r = d]] = numeric_entries rs d"
  by (induction rs) (auto simp: numeric_entries_def split: cell.splits)

lemma numeric_entries_all:
  assumes "\<not> list_ex (\<lambda>r. is_Str (Value r)) rs" and "\<forall>r \<in> set rs. Date r = d \<longrightarrow> Value r \<noteq> NaN"
  shows "map Num (numeric_entries rs d) = [Value r. r \<leftarrow> rs, Date r = d]"
  using assms
  by (induction rs) (auto simp: numeric_entries_def is_Str_def split: cell.splits)

lemma groupby_mean_series:
  assumes "groupby_mean filtered = Inr g"
  shows "sort_values g = g" and "sorted_wrt (<) (map fst g)"
    and "set (map fst g) = Date ` set filtered"
    and "\<forall>d v. (d, v) \<in> set g \<longrightarrow> v = (if numeric_entries filtered d = [] then None
           else Some (sum_list (numeric_entries filtered d) / real (length (numeric_entries filtered d))))"
proof -
  have g: "g = map (\<lambda>d. (d, nan_mean [Value r. r \<leftarrow> filtered, Date r = d]))
                    (sort (remdups (map Date filtered)))"
    using assms by (simp add: groupby_mean_def split: if_splits)
  have keys: "map fst g = sort (remdups (map Date filtered))"
    unfolding g by (simp add: comp_def)
  show "sort_values g = g"
    unfolding sort_values_def by (rule sort_key_id_if_sorted) (simp add: keys)
  show "sorted_wrt (<) (map fst g)"
    unfolding keys strict_sorted_iff by simp
  show "set (map fst g) = Date ` set filtered"
    unfolding keys by simp
  show "\<forall>d v. (d, v) \<in> set g \<longrightarrow> v = (if numeric_entries filtered d = [] then None
           else Some (sum_list (numeric_entries filtered d) / real (length (numeric_entries filtered d))))"
    unfolding g by (auto simp: nan_mean_def numeric_entries_group Let_def)
qed

text \<open>
  C8. Every series that the Series Extractor produces has strictly increasing dates; its
  dates are exactly the dates that occur in the filtered rows, so there is one pair per
  distinct date; and the value of each pair is the arithmetic mean (sum divided by count)
  of the numbers in the value column of the filtered rows that carry the date. Missing
  (NaN) cells are skipped, a date with no number has the value NaN, and where no cell of
  the date is missing the numbers are all the entries of that date.
\<close>

theorem extracted_series_invariant:
  assumes "series_extractor df country tech zone kpi = Inr (Inr s)"
  shows "\<exists>filtered. filter_rows df country tech zone kpi = Inr filtered
    \<and> sorted_wrt (<) (map fst s)
    \<and> set (map fst s) = Date ` set filtered
    \<and> (\<forall>d v. (d, v) \<in> set s \<longrightarrow>
          v = (if numeric_entries filtered d = [] then None
               else Some (sum_list (numeric_entries filtered d)
                          / real (length (numeric_entries filtered d)))))
    \<and> (\<forall>d. (\<forall>r \<in> set filtered. Date r = d \<longrightarrow> Value r \<noteq> NaN)
          \<longrightarrow> map Num (numeric_entries filtered d) = [Value r. r \<leftarrow> filtered, Date r = d])"
proof -
  obtain filtered g where f: "filter_rows df country tech zone kpi = Inr filtered"
    and g: "groupby_mean filtered = Inr g" and s: "s = sort_values g"
    using assms by (auto simp: series_extractor_def split: sum.splits if_splits)
  note gs = groupby_mean_series [OF g]
  have s': "s = g" using s gs(1) by simp
  have nostr: "\<not> list_ex (\<lambda>r. is_Str (Value r)) filtered"
    using g by (auto simp: groupby_mean_def split: if_splits)
  have "\<forall>d. (\<forall>r \<in> set filtered. Date r = d \<longrightarrow> Value r \<noteq> NaN)
          \<longrightarrow> map Num (numeric_entries filtered d) = [Value r. r \<leftarrow> filtered, Date r = d]"
    using numeric_entries_all [OF nostr] by blast
  then show ?thesis using f gs(2,3,4) unfolding s' by blast
qed

theorem extracted_series_invariant_witness:
  "series_extractor
     \<lparr>columns = [''Country'', ''Technology'', ''Zone'', ''KPI'', value_col, ''Date''],
      rows = [(hd (rows (one_row_frame 12)))\<lparr>Date := (2024, 2, 1)\<rparr>,
              (hd (rows (one_row_frame 10)))\<lparr>Date := (2024, 1, 1)\<rparr>,
              (hd (rows (one_row_frame 14)))\<lparr>Date := (2024, 1, 1)\<rparr>,
              (hd (rows (one_row_frame 0)))\<lparr>Date := (2024, 2, 1), Value := NaN\<rparr>,
              (hd (rows (one_row_frame 99)))\<lparr>Date := (2024, 3, 1), Zone := Str ''ZoneB''\<rparr>]\<rparr>
     ''France'' ''4G'' ''ZoneA'' ''Availability''
     = Inr (Inr [((2024, 1, 1), Some 12), ((2024, 2, 1), Some 12)])
   \<and> sorted_wrt (<) (map fst [((2024, 1, 1), Some 12), ((2024, 2, 1), Some (12::real))]
                       :: date list)"
proof -
  let ?d = "\<lparr>columns = [''Country'', ''Technology'', ''Zone'', ''KPI'', value_col, ''Date''],
      rows = [(hd (rows (one_row_frame 12)))\<lparr>Date := (2024, 2, 1)\<rparr>,
              (hd (rows (one_row_frame 10)))\<lparr>Date := (2024, 1, 1)\<rparr>,
              (hd (rows (one_row_frame 14)))\<lparr>Date := (2024, 1, 1)\<rparr>,
              (hd (rows (one_row_frame 0)))\<lparr>Date := (2024, 2, 1), Value := NaN\<rparr>,
              (hd (rows (one_row_frame 99)))\<lparr>Date := (2024, 3, 1), Zone := Str ''ZoneB''\<rparr>]\<rparr>"
  have h: "series_extractor ?d ''France'' ''4G'' ''ZoneA'' ''Availability''
     = Inr (Inr [((2024, 1, 1), Some 12), ((2024, 2, 1), Some 12)])"
    by code_simp
  from extracted_series_invariant [OF h] h show ?thesis by blast
qed

lemma feature_builder_two: "length s = 2 \<Longrightarrow> feature_builder s = []"
proof -
  assume "length s = 2"
  then obtain a b where s: "s = [a, b]"
    by (metis (no_types, lifting) One_nat_def Suc_1 length_0_conv length_Suc_conv)
  obtain d1 v1 d2 v2 where "a = (d1, v1)" "b = (d2, v2)" by (cases a, cases b) auto
  then show ?thesis unfolding s
    by (simp add: feature_builder_def create_features_def add_lags_def shift_def dropna_def
        dropna_row_def Let_def split: option.splits)
qed

text \<open>
  C9. Whenever the series extracted for the requested dimensions has two points, the
  Feature Builder yields no row, and the forecast returns an error message
  \<open>Forecast failed: ...\<close> with no chart and no summary, and so does the pipeline on every
  archive that aggregates to such a dataset. The code has no error classes: insufficient
  history surfaces as the exception caught in \<open>forecast_kpi\<close> (the regressor refusing the
  empty training set, or else \<open>ts.iloc[-1]\<close> on the empty frame). The instance that
  follows is the archive of the two files \<open>Jan2024.xlsx\<close> and \<open>Feb2024.xlsx\<close> with the
  values 10 and 12.
\<close>

theorem two_point_series_fails:
  assumes "series_extractor df country tech zone kpi = Inr (Inr s)" and "length s = 2"
  shows "feature_builder s = []
    \<and> (\<exists>e. forecast_kpi env df country tech zone kpi n = (None, None, Some (Forecast_failed e)))
    \<and> (aggregate_records env zip_buffer = Inr (Inr df)
        \<longrightarrow> (\<exists>e. run_forecast_pipeline env zip_buffer country tech zone kpi n
                   = (None, None, Some (Forecast_failed e))))"
proof -
  have fb: "feature_builder s = []" by (rule feature_builder_two [OF assms(2)])
  have "\<exists>e. forecast_body env df country tech zone kpi n = Inl e"
    using assms(1) fb
    by (cases "fit env []") (simp_all add: forecast_body_def forecast_engine_def)
  then obtain e where k: "forecast_kpi env df country tech zone kpi n
      = (None, None, Some (Forecast_failed e))"
    by (auto simp: forecast_kpi_def)
  have "aggregate_records env zip_buffer = Inr (Inr df)
        \<longrightarrow> run_forecast_pipeline env zip_buffer country tech zone kpi n
                   = (None, None, Some (Forecast_failed e))"
    using k by (simp add: pipeline_error_passes)
  then show ?thesis using fb k by blast
qed

theorem two_point_series_fails_witness:
  "series_extractor
      \<lparr>columns = [''Country'', ''Technology'', ''Zone'', ''KPI'', ''Actual Value MAPS Networks'',
                  ''Date'', ''source_file''],
       rows = [(hd (rows (one_row_frame 10)))\<lparr>Date := (2024, 1, 1)\<rparr>,
               (hd (rows (one_row_frame 12)))\<lparr>Date := (2024, 2, 1)\<rparr>]\<rparr>
      ''France'' ''4G'' ''ZoneA'' ''Availability''
     = Inr (Inr [((2024, 1, 1), Some 10), ((2024, 2, 1), Some 12)])
   \<and> feature_builder [((2024, 1, 1), Some 10), ((2024, 2, 1), Some 12)] = []
   \<and> (\<exists>e. run_forecast_pipeline (archive_env [(''Jan2024.xlsx'', 10), (''Feb2024.xlsx'', 12)])
             ''PK'' ''France'' ''4G'' ''ZoneA'' ''Availability'' 3
           = (None, None, Some (Forecast_failed e)))"
proof -
  let ?e = "archive_env [(''Jan2024.xlsx'', 10), (''Feb2024.xlsx'', 12)]"
  let ?d = "\<lparr>columns = [''Country'', ''Technology'', ''Zone'', ''KPI'', ''Actual Value MAPS Networks'',
                  ''Date'', ''source_file''],
       rows = [(hd (rows (one_row_frame 10)))\<lparr>Date := (2024, 1, 1)\<rparr>,
               (hd (rows (one_row_frame 12)))\<lparr>Date := (2024, 2, 1)\<rparr>]\<rparr>"
  let ?s = "[((2024, 1, 1), Some 10), ((2024, 2, 1), Some 12)] :: (date \<times> real option) list"
  have a: "aggregate_records ?e ''PK'' = Inr (Inr ?d)" by code_simp
  have h: "series_extractor ?d ''France'' ''4G'' ''ZoneA'' ''Availability'' = Inr (Inr ?s)"
    by code_simp
  have l: "length ?s = 2" by simp
  from two_point_series_fails [OF h l, of ?e 3 "''PK''"] a h show ?thesis by blast
qed

lemma forecast_kpi_shape:
  "(\<exists>msg. forecast_kpi env df country tech zone kpi n = (None, None, Some msg) \<and> truthy (Some msg))
   \<or> (\<exists>fig summary. forecast_kpi env df country tech zone kpi n = (Some fig, Some summary, None))"
proof (cases "series_extractor df country tech zone kpi")
  case (Inl e)
  then show ?thesis using forecast_kpi_raise [OF Inl, of env n] by simp
next
  case (Inr r)
  show ?thesis
  proof (cases r)
    case (Inl msg)
    then have se: "series_extractor df country tech zone kpi = Inr (Inl msg)" using Inr by simp
    have "truthy (Some msg)"
      using series_extractor_message_cases [OF se] by auto
    then show ?thesis using forecast_kpi_message [OF se, of env n] by simp
  next
    case (Inr series)
    then have se: "series_extractor df country tech zone kpi = Inr (Inr series)"
      using \<open>series_extractor df country tech zone kpi = Inr r\<close> by simp
    show ?thesis
      unfolding forecast_kpi_def forecast_body_def se
      by (simp add: Let_def split: sum.splits)
  qed
qed

text \<open>
  C6. For every archive, dimension tuple and horizon, and whatever the collaborators do
  (each may raise), \<open>run_forecast_pipeline\<close> returns a triple: every exception is a value
  of the model and is turned into a message by the two \<open>except Exception\<close> handlers. In the
  triple exactly one of chart payload and error message is non-null, and the summary is
  non-null exactly when the chart payload is.
\<close>

theorem pipeline_result_shape:
  "\<exists>chart summary err.
      run_forecast_pipeline env zip_buffer country tech zone kpi n = (chart, summary, err)
    \<and> (chart = None) = (err \<noteq> None)
    \<and> (summary = None) = (chart = None)"
proof (cases "aggregate_records env zip_buffer")
  case (Inl e)
  then show ?thesis by (simp add: run_forecast_pipeline_def pipeline_body_def)
next
  case (Inr r)
  show ?thesis
  proof (cases r)
    case (Inl msg)
    then show ?thesis using Inr by (simp add: run_forecast_pipeline_def pipeline_body_def)
  next
    case df: (Inr df_all)
    from forecast_kpi_shape [of env df_all country tech zone kpi n]
    show ?thesis
    proof (elim disjE exE conjE)
      fix msg
      assume "forecast_kpi env df_all country tech zone kpi n = (None, None, Some msg)"
        and "truthy (Some msg)"
      then show ?thesis using Inr df
        by (simp add: run_forecast_pipeline_def pipeline_body_def)
    next
      fix fig summary
      assume "forecast_kpi env df_all country tech zone kpi n = (Some fig, Some summary, None)"
      then show ?thesis using Inr df
        by (cases "to_json env fig") (simp_all add: run_forecast_pipeline_def pipeline_body_def)
    qed
  qed
qed

theorem pipeline_result_shape_witness:
  "(\<exists>chart summary err.
      run_forecast_pipeline
        (archive_env [(''Jan2024.xlsx'', 10), (''Feb2024.xlsx'', 12), (''mar2024.XLS'', 11),
                      (''x_APR2024.xlsx'', 13)])
        ''PK'' ''France'' ''4G'' ''ZoneA'' ''Availability'' 2 = (chart, summary, err)
    \<and> (chart = None) = (err \<noteq> None)
    \<and> (summary = None) = (chart = None))
   \<and> run_forecast_pipeline
        (archive_env [(''Jan2024.xlsx'', 10), (''Feb2024.xlsx'', 12), (''mar2024.XLS'', 11),
                      (''x_APR2024.xlsx'', 13)])
        ''PK'' ''France'' ''4G'' ''ZoneA'' ''Availability'' 2
      = (Some ''{}'', Some [((2024, 5, 1), 0), ((2024, 6, 1), 0)], None)"
proof -
  let ?e = "archive_env [(''Jan2024.xlsx'', 10), (''Feb2024.xlsx'', 12), (''mar2024.XLS'', 11),
                    (''x_APR2024.xlsx'', 13)]"
  have r: "run_forecast_pipeline ?e ''PK'' ''France'' ''4G'' ''ZoneA'' ''Availability'' 2
     = (Some ''{}'', Some [((2024, 5, 1), 0), ((2024, 6, 1), 0)], None)"
    by code_simp
  show ?thesis
    by (rule conjI [OF pipeline_result_shape r])
qed

text \<open>
  The error paths on concrete archives. A negative horizon gives an empty date range and the
  figure fails on the missing column \<open>ds\<close>. A spreadsheet without any string header is
  skipped at line 123, and with no other file nothing valid is left. Two headers that are
  equal after stripping stay two columns and the mask raises. A forecast date after the
  year 9999 cannot be written in the summary.
\<close>

lemma pipeline_error_paths:
  "run_forecast_pipeline
      (archive_env [(''Jan2024.xlsx'', 10), (''Feb2024.xlsx'', 12), (''mar2024.XLS'', 11),
                    (''x_APR2024.xlsx'', 13)])
      ''PK'' ''France'' ''4G'' ''ZoneA'' ''Availability'' (- 1)
     = (None, None, Some (Forecast_failed (KeyError ''ds'')))"
  "run_forecast_pipeline
      ((archive_env [(''Jan2024.xlsx'', 10)])
         \<lparr>read_excel := \<lambda>path. Inr \<lparr>sheet_labels = [], sheet_rows = []\<rparr>\<rparr>)
      ''PK'' ''France'' ''4G'' ''ZoneA'' ''Availability'' 3
     = (None, None, Some (Msg ''No valid data found in Excel files''))"
  "run_forecast_pipeline
      ((archive_env [(''Jan2024.xlsx'', 10)])
         \<lparr>read_excel := \<lambda>path. Inr \<lparr>sheet_labels = [Num 2023, Num 2024], sheet_rows = []\<rparr>\<rparr>)
      ''PK'' ''France'' ''4G'' ''ZoneA'' ''Availability'' 3
     = (None, None, Some (Msg ''No valid data found in Excel files''))"
  "run_forecast_pipeline
      ((archive_env [(''Jan2024.xlsx'', 10), (''Feb2024.xlsx'', 12), (''mar2024.XLS'', 11),
                     (''x_APR2024.xlsx'', 13)])
         \<lparr>read_excel := \<lambda>path. Inr \<lparr>sheet_labels = map Str [''Country'', ''Country '',
                                         ''Technology'', ''Zone'', ''KPI'', value_col],
                                     sheet_rows = rows (one_row_frame 10)\<rparr>\<rparr>)
      ''PK'' ''France'' ''4G'' ''ZoneA'' ''Availability'' 2
     = (None, None, Some (Forecast_failed ValueError))"
  "forecast_kpi (archive_env [])
      \<lparr>columns = [''Country'', ''Technology'', ''Zone'', ''KPI'', value_col, ''Date''],
       rows = [(hd (rows (one_row_frame 10)))\<lparr>Date := (9999, 9, 1)\<rparr>,
               (hd (rows (one_row_frame 12)))\<lparr>Date := (9999, 10, 1)\<rparr>,
               (hd (rows (one_row_frame 11)))\<lparr>Date := (9999, 11, 1)\<rparr>,
               (hd (rows (one_row_frame 13)))\<lparr>Date := (9999, 12, 1)\<rparr>]\<rparr>
      ''France'' ''4G'' ''ZoneA'' ''Availability'' 1
     = (None, None, Some (Forecast_failed ValueError))"
  by code_simp+

end
